theory Spec2Isabelle
  imports Main
begin

section \<open>Python strings\<close>

text \<open>
  A Python \<open>str\<close> is modelled as a \<open>string\<close> whose characters are the code points
  0..255 (the Latin-1 range of Unicode); the string operations below are Python's,
  restricted to that range.
\<close>

definition isspace :: "char \<Rightarrow> bool" where
  \<comment> \<open>\<open>str.isspace\<close> on one character; the characters \<open>str.strip()\<close> removes.\<close>
  "isspace c = (let n = (of_char c :: nat) in
     (9 \<le> n \<and> n \<le> 13) \<or> (28 \<le> n \<and> n \<le> 32) \<or> n = 133 \<or> n = 160)"

definition strip :: "string \<Rightarrow> string" where
  "strip s = rev (dropWhile isspace (rev (dropWhile isspace s)))"

definition lower_char :: "char \<Rightarrow> char" where
  \<comment> \<open>\<open>str.lower\<close> on one character: the ASCII capitals by table, the Latin-1 capitals
      (192 to 222 but the multiplication sign 215) by their offset\<close>
  "lower_char c =
     (case map_of (zip ''ABCDEFGHIJKLMNOPQRSTUVWXYZ'' ''abcdefghijklmnopqrstuvwxyz'') c of
        Some l \<Rightarrow> l
      | None \<Rightarrow>
          (let n = (of_char c :: nat) in
           if 192 \<le> n \<and> n \<le> 222 \<and> n \<noteq> 215 then char_of (n + 32) else c))"

definition lower :: "string \<Rightarrow> string" where
  "lower s = map lower_char s"

definition ascii_digit :: "char \<Rightarrow> bool" where
  "ascii_digit c = (let n = (of_char c :: nat) in 48 \<le> n \<and> n \<le> 57)"

definition isdigit_char :: "char \<Rightarrow> bool" where
  \<comment> \<open>the decimal digits and the superscripts two, three and one\<close>
  "isdigit_char c = (let n = (of_char c :: nat) in
     (48 \<le> n \<and> n \<le> 57) \<or> n = 178 \<or> n = 179 \<or> n = 185)"

definition isdigit :: "string \<Rightarrow> bool" where
  \<comment> \<open>\<open>str.isdigit\<close>: at least one character, all of them digits\<close>
  "isdigit s = (s \<noteq> [] \<and> list_all isdigit_char s)"

fun split_first :: "char \<Rightarrow> string \<Rightarrow> string \<times> string option" where
  \<comment> \<open>\<open>s.split(c, 1)\<close>: the text before the first \<open>c\<close> and, when there is one, the text after it\<close>
  "split_first c [] = ([], None)"
| "split_first c (x # xs) =
     (if x = c then ([], Some xs)
      else (case split_first c xs of (a, b) \<Rightarrow> (x # a, b)))"

fun split_on :: "char \<Rightarrow> string \<Rightarrow> string list" where
  \<comment> \<open>\<open>s.split(c)\<close>\<close>
  "split_on c [] = [[]]"
| "split_on c (x # xs) =
     (if x = c then [] # split_on c xs
      else (case split_on c xs of [] \<Rightarrow> [[x]] | p # ps \<Rightarrow> (x # p) # ps))"

fun join :: "string \<Rightarrow> string list \<Rightarrow> string" where
  \<comment> \<open>\<open>sep.join(xs)\<close>\<close>
  "join sep [] = []"
| "join sep [x] = x"
| "join sep (x # y # ys) = x @ sep @ join sep (y # ys)"

definition replace_char :: "char \<Rightarrow> string \<Rightarrow> string \<Rightarrow> string" where
  \<comment> \<open>\<open>s.replace(c, t)\<close> for a one-character \<open>c\<close>\<close>
  "replace_char c t s = concat (map (\<lambda>x. if x = c then t else [x]) s)"

subsection \<open>Integers as text\<close>

definition digit_char :: "nat \<Rightarrow> char" where
  "digit_char d = ''0123456789'' ! d"

fun str_nat :: "nat \<Rightarrow> string" where
  "str_nat n = (if n < 10 then [digit_char n] else str_nat (n div 10) @ [digit_char (n mod 10)])"

declare str_nat.simps [simp del]

definition str_int :: "int \<Rightarrow> string" where
  \<comment> \<open>\<open>str(i)\<close> of a Python int\<close>
  "str_int i = (if i < 0 then CHR ''-'' # str_nat (nat (- i)) else str_nat (nat i))"

definition digit_val :: "char \<Rightarrow> nat" where
  "digit_val c = of_char c - 48"

fun digits_val :: "nat \<Rightarrow> string \<Rightarrow> nat option" where
  \<comment> \<open>the digits of an integer literal after its sign, single underscores allowed
      between digits; the accumulator is the value read so far\<close>
  "digits_val acc [] = Some acc"
| "digits_val acc [c] = (if ascii_digit c then Some (10 * acc + digit_val c) else None)"
| "digits_val acc (c # d # cs) =
     (if ascii_digit c then
        (if d = CHR ''_'' then
           (if cs = [] then None else digits_val (10 * acc + digit_val c) cs)
         else digits_val (10 * acc + digit_val c) (d # cs))
      else None)"

definition int_space :: "char \<Rightarrow> bool" where
  \<comment> \<open>the white space \<open>int()\<close> skips around a literal\<close>
  "int_space c = (let n = (of_char c :: nat) in
     (9 \<le> n \<and> n \<le> 13) \<or> n = 32 \<or> n = 133 \<or> n = 160)"

definition max_str_digits :: nat where
  \<comment> \<open>CPython's limit on the number of digits of a decimal literal that \<open>int\<close> converts
      (\<open>sys.get_int_max_str_digits()\<close>, 4300 unless the interpreter is told otherwise)\<close>
  "max_str_digits = 4300"

definition unsigned_val :: "string \<Rightarrow> nat option" where
  \<comment> \<open>the literal after its sign: the digits are counted without the underscores\<close>
  "unsigned_val s =
     (if s = [] \<or> max_str_digits < length (filter ascii_digit s) then None else digits_val 0 s)"

definition int_of_str :: "string \<Rightarrow> int option" where
  \<comment> \<open>\<open>int(s)\<close> of a \<open>str\<close>; \<open>None\<close> is the ValueError, raised for a text that is no
      literal and for a literal of more than \<open>max_str_digits\<close> digits\<close>
  "int_of_str s =
     (case rev (dropWhile int_space (rev (dropWhile int_space s))) of
        [] \<Rightarrow> None
      | c # cs \<Rightarrow>
          if c = CHR ''-'' then map_option (\<lambda>n. - int n) (unsigned_val cs)
          else if c = CHR ''+'' then map_option int (unsigned_val cs)
          else map_option int (unsigned_val (c # cs)))"

section \<open>Python values\<close>

text \<open>
  The values an operation descriptor holds: what the parser's coercion produces. Floating
  point is not modelled: the type \<open>'f\<close> of floats and the operations of the Python
  runtime on them are parameters, passed as a record, and every theorem holds for every
  choice of them.
\<close>

datatype 'f pyval = VBool bool | VInt int | VFloat 'f | VStr string

datatype error = AttributeError | ValueError | OverflowError | NameError | ZeroDivisionError
  | RuntimeError | OSError

record 'f float_ops =
  float_of_str :: "string \<Rightarrow> 'f option"
  str_float :: "'f \<Rightarrow> string"
  int_float :: "'f \<Rightarrow> error + int"
  float_nonzero :: "'f \<Rightarrow> bool"
  radians :: "int \<Rightarrow> 'f"

text \<open>
  \<open>float_of_str\<close> is \<open>float(s)\<close> (\<open>None\<close>: ValueError); \<open>str_float\<close> is
  \<open>str(x)\<close>, the text an f-string prints; \<open>int_float\<close> is \<open>int(x)\<close>, which raises
  for an infinity or a NaN; \<open>float_nonzero\<close> is the truth value of a float; and
  \<open>radians deg\<close> is the float \<open>deg * 3.14159265 / 180.0\<close> (the arithmetic and its
  range limit belong to the floating point and are not part of the model).
\<close>

fun py_str :: "'f float_ops \<Rightarrow> 'f pyval \<Rightarrow> string" where
  "py_str fl (VBool b) = (if b then ''True'' else ''False'')"
| "py_str fl (VInt i) = str_int i"
| "py_str fl (VFloat x) = str_float fl x"
| "py_str fl (VStr s) = s"

fun py_int :: "'f float_ops \<Rightarrow> 'f pyval \<Rightarrow> error + int" where
  "py_int fl (VBool b) = Inr (if b then 1 else 0)"
| "py_int fl (VInt i) = Inr i"
| "py_int fl (VFloat x) = int_float fl x"
| "py_int fl (VStr s) = (case int_of_str s of None \<Rightarrow> Inl ValueError | Some i \<Rightarrow> Inr i)"

fun truthy :: "'f float_ops \<Rightarrow> 'f pyval \<Rightarrow> bool" where
  "truthy fl (VBool b) = b"
| "truthy fl (VInt i) = (i \<noteq> 0)"
| "truthy fl (VFloat x) = float_nonzero fl x"
| "truthy fl (VStr s) = (s \<noteq> [])"

type_synonym 'f descriptor = "string \<rightharpoonup> 'f pyval"

definition dget :: "'f descriptor \<Rightarrow> string \<Rightarrow> 'f pyval \<Rightarrow> 'f pyval" where
  \<comment> \<open>\<open>op.get(key, default)\<close>\<close>
  "dget d k dflt = (case d k of None \<Rightarrow> dflt | Some v \<Rightarrow> v)"

section \<open>The operation parser\<close>

definition coerce :: "'f float_ops \<Rightarrow> string \<Rightarrow> 'f pyval" where
  \<comment> \<open>lines 34 to 39 of \<open>parse_ops_query\<close>, on the stripped value; the \<open>except: pass\<close>
      leaves the value the string it was\<close>
  "coerce fl v =
     (if lower v = ''true'' \<or> lower v = ''false'' then VBool (lower v = ''true'')
      else if isdigit v then
        (case int_of_str v of None \<Rightarrow> VStr v | Some i \<Rightarrow> VInt i)
      else if CHR ''.'' \<in> set v then
        (case float_of_str fl v of None \<Rightarrow> VStr v | Some x \<Rightarrow> VFloat x)
      else VStr v)"

definition parse_part :: "'f float_ops \<Rightarrow> string \<Rightarrow> 'f descriptor \<Rightarrow> 'f descriptor" where
  \<comment> \<open>the body of the loop over \<open>args.split(",")\<close>\<close>
  "parse_part fl part item =
     (if part = [] then item
      else (case split_first (CHR ''='') part of
              (k, Some v) \<Rightarrow> item(strip k \<mapsto> coerce fl (strip v))
            | (k, None) \<Rightarrow> item(strip part \<mapsto> VBool True)))"

definition parse_op :: "(string \<Rightarrow> string) \<Rightarrow> 'f float_ops \<Rightarrow> string \<Rightarrow> 'f descriptor" where
  \<comment> \<open>one raw string; \<open>norm\<close> is what the variant applies to the name\<close>
  "parse_op norm fl raw =
     (case split_first (CHR '':'') raw of
        (name, rest) \<Rightarrow>
          (let args = (case rest of None \<Rightarrow> [] | Some a \<Rightarrow> a);
               item = [''op'' \<mapsto> VStr (norm name)]
           in if args \<noteq> [] then fold (parse_part fl) (split_on (CHR '','') args) item
              else item))"

definition parse_ops_query :: "'f float_ops \<Rightarrow> string list \<Rightarrow> 'f descriptor list" where
  \<comment> \<open>CPU-Powered-POC: the name is stripped\<close>
  "parse_ops_query fl op_params = map (parse_op strip fl) (filter (\<lambda>raw. raw \<noteq> []) op_params)"

definition gpu_parse_ops_query :: "'f float_ops \<Rightarrow> string list \<Rightarrow> 'f descriptor list" where
  \<comment> \<open>Integrated-GPU-Powered-POC: the name is stripped and lowered\<close>
  "gpu_parse_ops_query fl op_params =
     map (parse_op (\<lambda>n. lower (strip n)) fl) (filter (\<lambda>raw. raw \<noteq> []) op_params)"

section \<open>Configuration and the file system\<close>

text \<open>
  The module-level settings both variants read from the environment when they are
  imported. CPU-Powered-POC reads \<open>FFMPEG\<close> and the \<open>WM_\<close> settings except
  \<open>WM_ENABLED\<close>; Integrated-GPU-Powered-POC reads all of them. The integer settings are
  what \<open>int\<close> returned for a text of the environment.
\<close>

record config =
  FFMPEG :: string
  ENCODER :: string
  DEFAULT_CRF :: string
  DEFAULT_PRESET :: string
  WM_ENABLED :: bool
  WM_TEXT :: string
  WM_IMAGE :: string
  WM_FONT :: string
  WM_FONTSIZE :: int
  WM_OPACITY :: int
  WM_INSET :: int

text \<open>
  The file system holds files only (directories are not modelled): a path leads to raw
  data or to a zip archive, itself a map from member names to contents.
\<close>

datatype content = Data string | Zip "string \<Rightarrow> content option"

type_synonym files = "string \<rightharpoonup> content"

definition path_exists :: "files \<Rightarrow> string \<Rightarrow> bool" where
  \<comment> \<open>\<open>os.path.exists\<close>\<close>
  "path_exists fs p = (fs p \<noteq> None)"

definition path_join :: "string \<Rightarrow> string \<Rightarrow> string" where
  \<comment> \<open>\<open>os.path.join(a, b)\<close> (POSIX)\<close>
  "path_join a b =
     (if b \<noteq> [] \<and> hd b = CHR ''/'' then b
      else if a = [] \<or> last a = CHR ''/'' then a @ b
      else a @ ''/'' @ b)"

section \<open>Command builders\<close>

definition cpu_base_cmd :: "config \<Rightarrow> string \<Rightarrow> string list" where
  "cpu_base_cmd cfg in_path =
     [FFMPEG cfg, ''-hide_banner'', ''-nostdin'', ''-y'', ''-loglevel'', ''error'', ''-i'', in_path]"

definition gpu_base_cmd :: "config \<Rightarrow> string \<Rightarrow> error + string list" where
  \<comment> \<open>the hardware branch reads the name \<open>VAAPI_DEVICE\<close>, which the module assigns
      nowhere: the read raises NameError\<close>
  "gpu_base_cmd cfg in_path =
     (let cmd0 = [FFMPEG cfg, ''-hide_banner'', ''-nostdin'', ''-y'', ''-loglevel'', ''error'']
      in if ENCODER cfg = ''h264_vaapi'' then Inl NameError
         else Inr (cmd0 @ [''-i'', in_path]))"

definition norm_format :: "string \<Rightarrow> string" where
  \<comment> \<open>\<open>(fmt or "mp4").lower()\<close>\<close>
  "norm_format fmt0 = lower (if fmt0 = [] then ''mp4'' else fmt0)"

definition cpu_choose_container_and_codecs :: "string \<Rightarrow> string \<times> string list" where
  "cpu_choose_container_and_codecs fmt0 =
     (let fmt = norm_format fmt0 in
      if fmt = ''mp4'' \<or> fmt = ''m4v'' \<or> fmt = ''mov'' then
        (''mp4'', [''-c:v'', ''libx264'', ''-c:a'', ''aac'', ''-movflags'', ''+faststart''])
      else if fmt = ''webm'' then
        (''webm'', [''-c:v'', ''libvpx-vp9'', ''-row-mt'', ''1'', ''-c:a'', ''libopus''])
      else if fmt = ''mkv'' then
        (''mkv'', [''-c:v'', ''libx264'', ''-c:a'', ''aac''])
      else if fmt = ''gif'' then
        (''gif'', [''-an'', ''-loop'', ''0''])
      else if fmt = ''hls'' \<or> fmt = ''m3u8'' then
        (''m3u8'', [''-c:v'', ''libx264'', ''-c:a'', ''aac'', ''-f'', ''hls'',
                    ''-hls_time'', ''4'', ''-hls_list_size'', ''0''])
      else
        (''mp4'', [''-c:v'', ''libx264'', ''-c:a'', ''aac'', ''-movflags'', ''+faststart'']))"

definition gpu_video_args :: "config \<Rightarrow> string list" where
  \<comment> \<open>the list \<open>args\<close> of the mkv and hls branches\<close>
  "gpu_video_args cfg =
     (let v = (if ENCODER cfg = ''h264_vaapi'' then ''h264_vaapi'' else ''libx264'') in
      [''-c:v'', v]
      @ (if v = ''libx264'' then [''-preset'', DEFAULT_PRESET cfg, ''-crf'', DEFAULT_CRF cfg]
         else if v = ''h264_vaapi'' then [''-b:v'', ''0'', ''-qp'', DEFAULT_CRF cfg]
         else []))"

definition gpu_choose_container_and_codecs :: "config \<Rightarrow> string \<Rightarrow> string \<times> string list" where
  "gpu_choose_container_and_codecs cfg fmt0 =
     (let fmt = norm_format fmt0;
          threads = [''-threads'', ''0''] in
      if fmt = ''mp4'' \<or> fmt = ''m4v'' \<or> fmt = ''mov'' then
        (if ENCODER cfg = ''h264_vaapi'' then
           (''mp4'', threads @ [''-c:v'', ''h264_vaapi'', ''-b:v'', ''0'', ''-qp'', DEFAULT_CRF cfg,
                               ''-c:a'', ''aac'', ''-movflags'', ''+faststart''])
         else
           (''mp4'', threads @ [''-c:v'', ''libx264'', ''-preset'', DEFAULT_PRESET cfg,
                               ''-crf'', DEFAULT_CRF cfg, ''-c:a'', ''aac'',
                               ''-movflags'', ''+faststart'', ''-pix_fmt'', ''yuv420p'']))
      else if fmt = ''webm'' then
        (''webm'', threads @ [''-c:v'', ''libvpx-vp9'', ''-row-mt'', ''1'', ''-c:a'', ''libopus''])
      else if fmt = ''mkv'' then
        (''mkv'', threads @ gpu_video_args cfg @ [''-c:a'', ''aac''])
      else if fmt = ''gif'' then
        (''gif'', threads @ [''-an'', ''-loop'', ''0''])
      else if fmt = ''hls'' \<or> fmt = ''m3u8'' then
        (''m3u8'', threads @ gpu_video_args cfg
                  @ [''-c:a'', ''aac'', ''-f'', ''hls'', ''-hls_time'', ''4'', ''-hls_list_size'', ''0''])
      else
        (''mp4'', threads @ [''-c:v'', ''libx264'', ''-preset'', DEFAULT_PRESET cfg,
                            ''-crf'', DEFAULT_CRF cfg, ''-c:a'', ''aac'',
                            ''-movflags'', ''+faststart'', ''-pix_fmt'', ''yuv420p'']))"

definition escape_drawtext :: "string \<Rightarrow> string" where
  "escape_drawtext s =
     replace_char (CHR 0x27) [CHR 0x5C, CHR 0x27]
       (replace_char (CHR '':'') [CHR 0x5C, CHR '':'']
          (replace_char (CHR 0x5C) [CHR 0x5C, CHR 0x5C] s))"

subsection \<open>The watermark stage\<close>

text \<open>
  \<open>alpha = max(0, min(100, WM_OPACITY)) / 100.0\<close> is a float with 101 possible values.
  The texts Python prints for it are computed here from the integer number of
  hundredths: \<open>repr_hundredths h\<close> is \<open>f"{h/100.0}"\<close>, \<open>fmt_2f h\<close> is
  \<open>f"{h/100.0:.2f}"\<close>, and \<open>f"{alpha*0.6:.2f}"\<close> is \<open>fmt_2f\<close> of \<open>6 * h / 10\<close> rounded to
  the nearest integer (it is never half way between two).
\<close>

definition clamp_opacity :: "int \<Rightarrow> nat" where
  "clamp_opacity x = nat (max 0 (min 100 x))"

definition two_digits :: "nat \<Rightarrow> string" where
  "two_digits n = [digit_char (n div 10), digit_char (n mod 10)]"

definition fmt_2f :: "nat \<Rightarrow> string" where
  "fmt_2f h = str_nat (h div 100) @ ''.'' @ two_digits (h mod 100)"

definition repr_hundredths :: "nat \<Rightarrow> string" where
  "repr_hundredths h =
     str_nat (h div 100) @ ''.''
     @ (if h mod 10 = 0 then [digit_char (h mod 100 div 10)] else two_digits (h mod 100))"

definition wm_chain :: "config \<Rightarrow> string" where
  \<comment> \<open>the two-input filter graph of the image watermark\<close>
  "wm_chain cfg =
     ''[1:v]format=rgba,colorchannelmixer=aa='' @ repr_hundredths (clamp_opacity (WM_OPACITY cfg))
     @ ''[wm];[0:v][wm]overlay=W-w-'' @ str_int (WM_INSET cfg) @ '':H-h-'' @ str_int (WM_INSET cfg)
     @ ''[vout]''"

definition wm_draw :: "config \<Rightarrow> string" where
  \<comment> \<open>the drawtext filter of the text watermark\<close>
  "wm_draw cfg =
     (let h = clamp_opacity (WM_OPACITY cfg);
          txt = escape_drawtext (WM_TEXT cfg);
          fill = ''white@'' @ fmt_2f h;
          stroke = ''black@'' @ fmt_2f ((6 * h + 5) div 10)
      in ''drawtext=fontfile='' @ [CHR 0x27] @ WM_FONT cfg @ [CHR 0x27]
         @ '':text='' @ [CHR 0x27] @ txt @ [CHR 0x27]
         @ '':fontsize='' @ str_int (WM_FONTSIZE cfg)
         @ '':fontcolor='' @ fill @ '':borderw=2:bordercolor='' @ stroke
         @ '':x=w-tw-'' @ str_int (WM_INSET cfg) @ '':y=h-th-'' @ str_int (WM_INSET cfg))"

definition image_usable :: "config \<Rightarrow> files \<Rightarrow> bool" where
  \<comment> \<open>\<open>WM_IMAGE and os.path.exists(WM_IMAGE)\<close>\<close>
  "image_usable cfg fs = (WM_IMAGE cfg \<noteq> [] \<and> path_exists fs (WM_IMAGE cfg))"

section \<open>The filter chain compiler, CPU-Powered-POC\<close>

text \<open>
  The variables the loop over the operations updates. \<open>cmd\<close> is the argument list the
  caller passed in, which the loop extends in place.
\<close>

record cstate =
  cmd :: "string list"
  vf_filters :: "string list"
  forced_ext :: "string option"
  is_hls :: bool
  vcodec_args :: "string list"
  acodec_args :: "string list"

definition init_state :: "string list \<Rightarrow> cstate" where
  "init_state c = \<lparr>cmd = c, vf_filters = [], forced_ext = None, is_hls = False,
                    vcodec_args = [], acodec_args = []\<rparr>"

definition cpu_op_name :: "'f descriptor \<Rightarrow> error + string" where
  \<comment> \<open>\<open>op.get("op","").lower()\<close>: a value that is not a \<open>str\<close> has no \<open>lower\<close>\<close>
  "cpu_op_name d = (case dget d ''op'' (VStr []) of VStr s \<Rightarrow> Inr (lower s) | _ \<Rightarrow> Inl AttributeError)"

definition ext_unset :: "string option \<Rightarrow> bool" where
  \<comment> \<open>\<open>not forced_ext\<close>: \<open>None\<close> or the empty string\<close>
  "ext_unset e = (case e of None \<Rightarrow> True | Some x \<Rightarrow> x = [])"

definition add_filter :: "string \<Rightarrow> ('a cstate_scheme) \<Rightarrow> ('a cstate_scheme)" where
  \<comment> \<open>\<open>vf_filters.append(f)\<close>\<close>
  "add_filter f st = st\<lparr>vf_filters := vf_filters st @ [f]\<rparr>"

definition format_type :: "'f float_ops \<Rightarrow> 'f descriptor \<Rightarrow> string" where
  \<comment> \<open>\<open>str(op.get("type","mp4")).lower()\<close>\<close>
  "format_type fl d = lower (py_str fl (dget d ''type'' (VStr ''mp4'')))"

definition rotate_op :: "'f float_ops \<Rightarrow> 'f descriptor \<Rightarrow> ('a cstate_scheme) \<Rightarrow> error + ('a cstate_scheme)" where
  \<comment> \<open>the \<open>rotate\<close> branch, the same text in both variants\<close>
  "rotate_op fl d st =
     (case py_int fl (dget d ''degrees'' (VInt 0)) of
        Inl e \<Rightarrow> Inl e
      | Inr deg \<Rightarrow>
          if deg mod 90 = 0 then
            (if deg = 90 then Inr (add_filter ''transpose=1'' st)
             else if deg = 180 then Inr (add_filter ''transpose=1,transpose=1'' st)
             else if deg = 270 then Inr (add_filter ''transpose=2'' st)
             else Inr st)
          else
            Inr (add_filter (''rotate='' @ str_float fl (radians fl deg) @ '':fillcolor=black'') st))"

definition cpu_step :: "'f float_ops \<Rightarrow> 'f descriptor \<Rightarrow> cstate \<Rightarrow> error + cstate" where
  \<comment> \<open>the body of \<open>for op in ops\<close>, lines 83 to 141\<close>
  "cpu_step fl d st =
     (case cpu_op_name d of
        Inl e \<Rightarrow> Inl e
      | Inr name \<Rightarrow>
          if name = ''format'' then
            (let fe = format_type fl d in
             Inr (st\<lparr>forced_ext := Some fe,
                     is_hls := (if fe = ''hls'' \<or> fe = ''m3u8'' then True else is_hls st)\<rparr>))
          else if name = ''scale'' \<or> name = ''resize'' then
            Inr (add_filter (''scale='' @ py_str fl (dget d ''width'' (VInt (- 2))) @ '':''
                             @ py_str fl (dget d ''height'' (VInt (- 2)))) st)
          else if name = ''fps'' then
            Inr (add_filter (''fps='' @ py_str fl (dget d ''value'' (VInt 30))) st)
          else if name = ''crop'' then
            Inr (add_filter (''crop='' @ py_str fl (dget d ''width'' (VStr ''iw'')) @ '':''
                             @ py_str fl (dget d ''height'' (VStr ''ih'')) @ '':''
                             @ py_str fl (dget d ''x'' (VStr ''(iw-ow)/2'')) @ '':''
                             @ py_str fl (dget d ''y'' (VStr ''(ih-oh)/2''))) st)
          else if name = ''bitrate'' then
            Inr (st\<lparr>vcodec_args := vcodec_args st
                       @ (case d ''video'' of None \<Rightarrow> [] | Some v \<Rightarrow> [''-b:v'', py_str fl v]),
                     acodec_args := acodec_args st
                       @ (case d ''audio'' of None \<Rightarrow> [] | Some v \<Rightarrow> [''-b:a'', py_str fl v])\<rparr>)
          else if name = ''crf'' then
            Inr (st\<lparr>vcodec_args := vcodec_args st @ [''-crf'', py_str fl (dget d ''value'' (VInt 23))]\<rparr>)
          else if name = ''preset'' then
            Inr (st\<lparr>vcodec_args := vcodec_args st
                       @ [''-preset'', py_str fl (dget d ''value'' (VStr ''veryfast''))]\<rparr>)
          else if name = ''audio'' then
            (if truthy fl (dget d ''remove'' (VBool False)) then Inr (st\<lparr>cmd := cmd st @ [''-an'']\<rparr>)
             else Inr st)
          else if name = ''rotate'' then rotate_op fl d st
          else if name = ''grayscale'' \<or> name = ''monochrome'' then
            Inr (add_filter ''format=gray'' st)
          else if name = ''thumbnail'' then
            Inr (st\<lparr>cmd := cmd st @ [''-ss'', py_str fl (dget d ''at'' (VInt 1)), ''-frames:v'', ''1''],
                     forced_ext := (if ext_unset (forced_ext st) then Some ''png'' else forced_ext st)\<rparr>)
          else Inr st)"

fun cpu_ops_loop :: "'f float_ops \<Rightarrow> 'f descriptor list \<Rightarrow> cstate \<Rightarrow> error + cstate" where
  \<comment> \<open>\<open>for op in ops\<close>: an exception ends the loop and the call\<close>
  "cpu_ops_loop fl [] st = Inr st"
| "cpu_ops_loop fl (d # ds) st =
     (case cpu_step fl d st of Inl e \<Rightarrow> Inl e | Inr st' \<Rightarrow> cpu_ops_loop fl ds st')"

definition cpu_apply_ops_and_watermark ::
  "config \<Rightarrow> 'f float_ops \<Rightarrow> files \<Rightarrow> string list \<Rightarrow> 'f descriptor list
   \<Rightarrow> error + (string list \<times> string option \<times> (string \<times> string \<times> string) option \<times> bool)" where
  \<comment> \<open>the result is \<open>(cmd, forced_ext, vf_or_complex, is_hls)\<close>; the file system stands for
      what \<open>os.path.exists\<close> reads; \<open>in_path\<close> and \<open>tmpdir\<close> are not used by the source\<close>
  "cpu_apply_ops_and_watermark cfg fl fs cmd0 ops =
     (case cpu_ops_loop fl ops (init_state cmd0) of
        Inl e \<Rightarrow> Inl e
      | Inr st \<Rightarrow>
          (if image_usable cfg fs then
             (let complex_inputs = [''-i'', WM_IMAGE cfg];
                  vf_or_complex = (''-filter_complex'', wm_chain cfg, ''-map'', ''[vout]'');
                  c1 = cmd st @ [''-map'', ''0:a?''];
                  c2 = (if complex_inputs \<noteq> [] then take 1 c1 @ drop 1 c1 @ complex_inputs else c1);
                  c3 = (if vf_filters st \<noteq> [] \<and> complex_inputs = []
                        then c2 @ [''-vf'', join '','' (vf_filters st)] else c2);
                  c4 = c3 @ vcodec_args st @ acodec_args st
              in Inr (c4, forced_ext st,
                      (case vf_or_complex of (a, b, c, _) \<Rightarrow> Some (a, b, c)), is_hls st))
           else
             (let vf = vf_filters st @ [wm_draw cfg];
                  c1 = cmd st;
                  c3 = (if vf \<noteq> [] then c1 @ [''-vf'', join '','' vf] else c1);
                  c4 = c3 @ vcodec_args st @ acodec_args st
              in Inr (c4, forced_ext st, None, is_hls st))))"

section \<open>The filter chain compiler, Integrated-GPU-Powered-POC\<close>

record gstate = cstate +
  used_scale :: bool

text \<open>
  The GPU variant calls the filter list \<open>vf\<close>; it is the field \<open>vf_filters\<close> here. Its
  loop compares the name as the descriptor holds it (the parser has lowered it), so a
  name that is not a \<open>str\<close> matches no branch.
\<close>

definition gpu_init_state :: "string list \<Rightarrow> gstate" where
  "gpu_init_state c = \<lparr>cmd = c, vf_filters = [], forced_ext = None, is_hls = False,
                        vcodec_args = [], acodec_args = [], used_scale = False\<rparr>"

definition gpu_step :: "config \<Rightarrow> 'f float_ops \<Rightarrow> 'f descriptor \<Rightarrow> gstate \<Rightarrow> error + gstate" where
  \<comment> \<open>the body of \<open>for op in ops\<close>, lines 103 to 158\<close>
  "gpu_step cfg fl d st =
     (let name = dget d ''op'' (VStr []) in
      if name = VStr ''format'' then
        (let fe = format_type fl d in
         Inr (st\<lparr>forced_ext := Some fe,
                 is_hls := (if fe = ''hls'' \<or> fe = ''m3u8'' then True else is_hls st)\<rparr>))
      else if name = VStr ''resize'' \<or> name = VStr ''scale'' then
        Inr ((add_filter (''scale='' @ py_str fl (dget d ''width'' (VInt (- 2))) @ '':''
                          @ py_str fl (dget d ''height'' (VInt (- 2)))) st)\<lparr>used_scale := True\<rparr>)
      else if name = VStr ''fps'' then
        Inr (add_filter (''fps='' @ py_str fl (dget d ''value'' (VInt 30))) st)
      else if name = VStr ''crop'' then
        Inr (add_filter (''crop='' @ py_str fl (dget d ''width'' (VStr ''iw'')) @ '':''
                         @ py_str fl (dget d ''height'' (VStr ''ih'')) @ '':''
                         @ py_str fl (dget d ''x'' (VStr ''(iw-ow)/2'')) @ '':''
                         @ py_str fl (dget d ''y'' (VStr ''(ih-oh)/2''))) st)
      else if name = VStr ''bitrate'' then
        Inr (st\<lparr>vcodec_args := vcodec_args st
                   @ (case d ''video'' of None \<Rightarrow> [] | Some v \<Rightarrow> [''-b:v'', py_str fl v]),
                 acodec_args := acodec_args st
                   @ (case d ''audio'' of None \<Rightarrow> [] | Some v \<Rightarrow> [''-b:a'', py_str fl v])\<rparr>)
      else if name = VStr ''crf'' then
        Inr (st\<lparr>vcodec_args := vcodec_args st
                   @ (if ENCODER cfg \<noteq> ''h264_vaapi''
                      then [''-crf'', py_str fl (dget d ''value'' (VInt 23))]
                      else [''-qp'', py_str fl (dget d ''value'' (VInt 23))])\<rparr>)
      else if name = VStr ''preset'' \<and> ENCODER cfg \<noteq> ''h264_vaapi'' then
        Inr (st\<lparr>vcodec_args := vcodec_args st
                   @ [''-preset'', py_str fl (dget d ''value'' (VStr ''veryfast''))]\<rparr>)
      else if name = VStr ''audio'' \<and> truthy fl (dget d ''remove'' (VBool False)) then
        Inr (st\<lparr>cmd := cmd st @ [''-an'']\<rparr>)
      else if name = VStr ''rotate'' then rotate_op fl d st
      else if name = VStr ''grayscale'' \<or> name = VStr ''monochrome'' then
        Inr (add_filter ''format=gray'' st)
      else if name = VStr ''thumbnail'' then
        Inr (st\<lparr>cmd := cmd st @ [''-ss'', py_str fl (dget d ''at'' (VInt 1)), ''-frames:v'', ''1''],
                 forced_ext := (if ext_unset (forced_ext st) then Some ''png'' else forced_ext st)\<rparr>)
      else if name = VStr ''fast'' then
        Inr (st\<lparr>vcodec_args := vcodec_args st
                   @ (if ENCODER cfg = ''h264_vaapi'' then [''-qp'', ''28'']
                      else [''-preset'', ''ultrafast'', ''-crf'', ''28''])\<rparr>)
      else Inr st)"

fun gpu_ops_loop :: "config \<Rightarrow> 'f float_ops \<Rightarrow> 'f descriptor list \<Rightarrow> gstate \<Rightarrow> error + gstate" where
  "gpu_ops_loop cfg fl [] st = Inr st"
| "gpu_ops_loop cfg fl (d # ds) st =
     (case gpu_step cfg fl d st of Inl e \<Rightarrow> Inl e | Inr st' \<Rightarrow> gpu_ops_loop cfg fl ds st')"

definition gpu_apply_ops_and_watermark ::
  "config \<Rightarrow> 'f float_ops \<Rightarrow> files \<Rightarrow> string list \<Rightarrow> 'f descriptor list
   \<Rightarrow> error + (string list \<times> string option \<times> (string \<times> string \<times> string) option \<times> bool
               \<times> string list)" where
  \<comment> \<open>the result is \<open>(cmd, forced_ext, vf_or_complex, is_hls, vf_and_codecs)\<close>; the list
      \<open>complex_inputs\<close> of the source is filled and never read\<close>
  "gpu_apply_ops_and_watermark cfg fl fs cmd0 ops =
     (case gpu_ops_loop cfg fl ops (gpu_init_state cmd0) of
        Inl e \<Rightarrow> Inl e
      | Inr st \<Rightarrow>
          (let wm = (if WM_ENABLED cfg then
                       (if image_usable cfg fs
                        then (Some (''-filter_complex'', wm_chain cfg, ''-map''), vf_filters st)
                        else (None, vf_filters st @ [wm_draw cfg]))
                     else (None, vf_filters st));
               vf_or_complex = fst wm;
               vf1 = snd wm;
               vf = (if ENCODER cfg = ''h264_vaapi'' then
                       (if vf_or_complex = None then vf1 @ [''format=nv12,hwupload''] else vf1)
                     else vf1);
               extra_codec_args = vcodec_args st @ acodec_args st
           in Inr (cmd st, forced_ext st, vf_or_complex, is_hls st,
                   (if vf \<noteq> [] then [''-vf'', join '','' vf] else [])
                   @ extra_codec_args
                   @ (if vf_or_complex = None then [] else [''[vout]'']))))"

section \<open>Running the engine and packaging the output\<close>

text \<open>
  The external engine is a parameter: given the argument vector and the file system, it
  either cannot be started, or exits with a return code and leaves a file system.
\<close>

datatype outcome = Exited int files | Not_started

type_synonym engine = "string list \<Rightarrow> files \<Rightarrow> outcome"

definition run :: "engine \<Rightarrow> string list \<Rightarrow> files \<Rightarrow> error + files" where
  \<comment> \<open>\<open>_run\<close>: \<open>subprocess.run(cmd, check=True)\<close>, a non-zero exit raised as RuntimeError\<close>
  "run eng c fs =
     (case eng c fs of
        Not_started \<Rightarrow> Inl OSError
      | Exited rc fs' \<Rightarrow> if rc = 0 then Inr fs' else Inl RuntimeError)"

definition makedirs :: "string \<Rightarrow> files \<Rightarrow> error + files" where
  \<comment> \<open>\<open>os.makedirs(d, exist_ok=True)\<close>: it raises when a file stands at the path\<close>
  "makedirs d fs = (if path_exists fs d then Inl OSError else Inr fs)"

definition dir_prefix :: "string \<Rightarrow> string" where
  "dir_prefix d = (if d \<noteq> [] \<and> last d = CHR ''/'' then d else d @ ''/'')"

definition zip_dir :: "string \<Rightarrow> string \<Rightarrow> files \<Rightarrow> files" where
  \<comment> \<open>\<open>_zip_dir\<close>: every file below \<open>src_dir\<close> becomes a member under its relative path
      (the archive is written outside \<open>src_dir\<close>)\<close>
  "zip_dir src_dir zip_path fs =
     fs(zip_path \<mapsto> Zip (\<lambda>rel. if rel = [] then None else fs (dir_prefix src_dir @ rel)))"

definition media_type_of :: "string \<Rightarrow> string" where
  \<comment> \<open>the dictionary at the end of \<open>process_video\<close> with its default\<close>
  "media_type_of container =
     (case map_of [(''mp4'', ''video/mp4''), (''webm'', ''video/webm''),
                   (''mkv'', ''video/x-matroska''), (''mov'', ''video/quicktime''),
                   (''gif'', ''image/gif''), (''m3u8'', ''application/vnd.apple.mpegurl'')] container of
        Some t \<Rightarrow> t
      | None \<Rightarrow> ''application/octet-stream'')"

definition resolve_ext :: "string option \<Rightarrow> string" where
  \<comment> \<open>\<open>out_ext = forced_ext or "mp4"\<close>\<close>
  "resolve_ext e = (if ext_unset e then ''mp4'' else the e)"

definition tuple_args :: "(string \<times> string \<times> string) option \<Rightarrow> string list" where
  \<comment> \<open>\<open>list(complex_tuple)\<close> when the tuple is set\<close>
  "tuple_args t = (case t of None \<Rightarrow> [] | Some (a, b, c) \<Rightarrow> [a, b, c])"

definition cpu_final_args ::
  "string list \<Rightarrow> (string \<times> string \<times> string) option \<Rightarrow> string list \<Rightarrow> string list \<Rightarrow> string list" where
  \<comment> \<open>the list \<open>final\<close> of the CPU variant: a copy of \<open>cmd\<close>, the tuple when it is set, the
      codec arguments and the output target\<close>
  "cpu_final_args cmd1 complex_tuple codec_args target =
     cmd1 @ tuple_args complex_tuple @ codec_args @ target"

definition cpu_process_video ::
  "config \<Rightarrow> 'f float_ops \<Rightarrow> engine \<Rightarrow> string \<Rightarrow> string \<Rightarrow> string \<Rightarrow> 'f descriptor list \<Rightarrow> string
   \<Rightarrow> files \<Rightarrow> error + ((string \<times> string) \<times> files)" where
  \<comment> \<open>\<open>u1\<close> and \<open>u2\<close> are the hex texts of the uuids drawn, in order; the result is
      \<open>(out_path, media_type)\<close> and the file system left behind\<close>
  "cpu_process_video cfg fl eng u1 u2 in_path ops tmpdir fs =
     (case cpu_apply_ops_and_watermark cfg fl fs (cpu_base_cmd cfg in_path) ops of
        Inl e \<Rightarrow> Inl e
      | Inr (cmd1, fe, complex_tuple, hls) \<Rightarrow>
          (let out_ext = resolve_ext fe in
           if hls then
             (let hls_dir = path_join tmpdir (''hls-'' @ take 8 u1);
                  playlist = path_join hls_dir ''index.m3u8'';
                  seg_tmpl = path_join hls_dir ''seg_%04d.ts'';
                  hls_args = snd (cpu_choose_container_and_codecs ''hls'');
                  final = cpu_final_args cmd1 complex_tuple hls_args
                            [''-hls_segment_filename'', seg_tmpl, playlist];
                  zip_path = path_join tmpdir (''hls_'' @ take 8 u2 @ ''.zip'')
              in case makedirs hls_dir fs of
                   Inl e \<Rightarrow> Inl e
                 | Inr fs1 \<Rightarrow>
                     (case run eng final fs1 of
                        Inl e \<Rightarrow> Inl e
                      | Inr fs2 \<Rightarrow> Inr ((zip_path, ''application/zip''), zip_dir hls_dir zip_path fs2)))
           else
             (case cpu_choose_container_and_codecs out_ext of
                (container, codec_args) \<Rightarrow>
                  (let out_path = path_join tmpdir (''out-'' @ u1 @ ''.'' @ container);
                       final = cpu_final_args cmd1 complex_tuple codec_args [out_path]
                   in case run eng final fs of
                        Inl e \<Rightarrow> Inl e
                      | Inr fs2 \<Rightarrow> Inr ((out_path, media_type_of container), fs2)))))"

definition gpu_graph_args :: "(string \<times> string \<times> string) option \<Rightarrow> string list" where
  \<comment> \<open>what \<open>process_video\<close> adds to \<open>final\<close> when the tuple is set\<close>
  "gpu_graph_args t =
     (case t of None \<Rightarrow> [] | Some (a, b, c) \<Rightarrow> [a, b, c, ''[vout]'', ''-map'', ''0:a?''])"

definition gpu_final_args ::
  "string list \<Rightarrow> (string \<times> string \<times> string) option \<Rightarrow> string list \<Rightarrow> string list \<Rightarrow> string list
   \<Rightarrow> string list" where
  \<comment> \<open>the list \<open>final\<close> of the GPU variant: a copy of \<open>cmd\<close>, the graph arguments when the
      tuple is set, \<open>vf_and_codecs\<close>, the codec arguments and the output target\<close>
  "gpu_final_args cmd1 complex_tuple vf_and_codecs codec_args target =
     cmd1 @ gpu_graph_args complex_tuple @ vf_and_codecs @ codec_args @ target"

definition gpu_process_video ::
  "config \<Rightarrow> 'f float_ops \<Rightarrow> engine \<Rightarrow> string \<Rightarrow> string \<Rightarrow> string \<Rightarrow> 'f descriptor list \<Rightarrow> string
   \<Rightarrow> files \<Rightarrow> error + ((string \<times> string) \<times> files)" where
  "gpu_process_video cfg fl eng u1 u2 in_path ops tmpdir fs =
     (case gpu_base_cmd cfg in_path of
        Inl e \<Rightarrow> Inl e
      | Inr base_cmd \<Rightarrow>
     (case gpu_apply_ops_and_watermark cfg fl fs base_cmd ops of
        Inl e \<Rightarrow> Inl e
      | Inr (cmd1, fe, complex_tuple, hls, vf_and_codecs) \<Rightarrow>
          (if (case fe of None \<Rightarrow> False | Some x \<Rightarrow> x = ''hls'' \<or> x = ''m3u8'') \<or> hls then
             (let hls_dir = path_join tmpdir (''hls-'' @ take 8 u1);
                  playlist = path_join hls_dir ''index.m3u8'';
                  seg_tmpl = path_join hls_dir ''seg_%04d.ts'';
                  codec_args = snd (gpu_choose_container_and_codecs cfg ''hls'');
                  final = gpu_final_args cmd1 complex_tuple vf_and_codecs codec_args
                            [''-hls_segment_filename'', seg_tmpl, playlist];
                  zip_path = path_join tmpdir (''hls_'' @ take 8 u2 @ ''.zip'')
              in case makedirs hls_dir fs of
                   Inl e \<Rightarrow> Inl e
                 | Inr fs1 \<Rightarrow>
                     (case run eng final fs1 of
                        Inl e \<Rightarrow> Inl e
                      | Inr fs2 \<Rightarrow> Inr ((zip_path, ''application/zip''), zip_dir hls_dir zip_path fs2)))
           else
             (case gpu_choose_container_and_codecs cfg (resolve_ext fe) of
                (container, codec_args) \<Rightarrow>
                  (let out_path = path_join tmpdir (''out-'' @ u1 @ ''.'' @ container);
                       final = gpu_final_args cmd1 complex_tuple vf_and_codecs codec_args [out_path]
                   in case run eng final fs of
                        Inl e \<Rightarrow> Inl e
                      | Inr fs2 \<Rightarrow> Inr ((out_path, media_type_of container), fs2))))))"

section \<open>The claims' vocabulary\<close>

text \<open>
  What the specification's sentences say, for comparison with the code: the value of a
  string of decimal digits, the coercion order of section 4.1, and an operation string
  put together from its name and its arguments.
\<close>

definition decimal_value :: "string \<Rightarrow> nat" where
  "decimal_value s = foldl (\<lambda>a c. 10 * a + digit_val c) 0 s"

definition claimed_coerce :: "'f float_ops \<Rightarrow> string \<Rightarrow> 'f pyval" where
  "claimed_coerce fl v =
     (if lower v = ''true'' then VBool True
      else if lower v = ''false'' then VBool False
      else if v \<noteq> [] \<and> list_all ascii_digit v then VInt (int (decimal_value v))
      else if CHR ''.'' \<in> set v then
        (case float_of_str fl v of Some x \<Rightarrow> VFloat x | None \<Rightarrow> VStr v)
      else VStr v)"

fun render_arg :: "string \<times> string option \<Rightarrow> string" where
  "render_arg (k, None) = k"
| "render_arg (k, Some v) = k @ ''='' @ v"

fun claimed_record :: "'f float_ops \<Rightarrow> string \<times> string option \<Rightarrow> 'f descriptor \<Rightarrow> 'f descriptor" where
  "claimed_record fl (k, None) item = item(strip k \<mapsto> VBool True)"
| "claimed_record fl (k, Some v) item = item(strip k \<mapsto> claimed_coerce fl (strip v))"


definition long_digits :: "string \<Rightarrow> bool" where
  \<comment> \<open>a value of decimal digits only, more of them than \<open>int\<close> converts\<close>
  "long_digits v = (list_all ascii_digit v \<and> max_str_digits < length v)"

fun short_value :: "string \<times> string option \<Rightarrow> bool" where
  \<comment> \<open>an argument whose value is no such run of digits\<close>
  "short_value (k, None) = True"
| "short_value (k, Some v) = (\<not> long_digits (strip v))"

fun arg_ok :: "string \<times> string option \<Rightarrow> bool" where
  \<comment> \<open>an argument that the separators do not cut: no comma in it, no \<open>=\<close> in its key,
      and a flag is not empty\<close>
  "arg_ok (k, None) = (k \<noteq> [] \<and> CHR '','' \<notin> set k \<and> CHR ''='' \<notin> set k)"
| "arg_ok (k, Some v) = (CHR '','' \<notin> set k \<and> CHR ''='' \<notin> set k \<and> CHR '','' \<notin> set v)"

definition cpu_recognized :: "string list" where
  \<comment> \<open>the names the branches of the CPU variant's loop compare with\<close>
  "cpu_recognized = [''format'', ''scale'', ''resize'', ''fps'', ''crop'', ''bitrate'', ''crf'',
                     ''preset'', ''audio'', ''rotate'', ''grayscale'', ''monochrome'', ''thumbnail'']"

definition gpu_recognized :: "string list" where
  "gpu_recognized = [''format'', ''resize'', ''scale'', ''fps'', ''crop'', ''bitrate'', ''crf'',
                     ''preset'', ''audio'', ''rotate'', ''grayscale'', ''monochrome'', ''thumbnail'',
                     ''fast'']"

definition claimed_media_type :: "string \<Rightarrow> string" where
  \<comment> \<open>the mapping of the output contract, section 6\<close>
  "claimed_media_type c =
     (if c = ''mp4'' then ''video/mp4''
      else if c = ''webm'' then ''video/webm''
      else if c = ''mkv'' then ''video/x-matroska''
      else if c = ''mov'' then ''video/quicktime''
      else if c = ''gif'' then ''image/gif''
      else ''application/octet-stream'')"

definition hls_dir_of :: "string \<Rightarrow> string \<Rightarrow> string" where
  \<comment> \<open>the dedicated subdirectory \<open>hls_dir\<close> of a segmented job\<close>
  "hls_dir_of tmpdir u1 = path_join tmpdir (''hls-'' @ take 8 u1)"

definition zip_path_of :: "string \<Rightarrow> string \<Rightarrow> string" where
  \<comment> \<open>the archive \<open>zip_path\<close> of a segmented job\<close>
  "zip_path_of tmpdir u2 = path_join tmpdir (''hls_'' @ take 8 u2 @ ''.zip'')"

definition hls_target :: "string \<Rightarrow> string list" where
  \<comment> \<open>the end of the argument vector of a segmented job: the segment template and the
      playlist, both in the subdirectory\<close>
  "hls_target d = [''-hls_segment_filename'', path_join d ''seg_%04d.ts'', path_join d ''index.m3u8'']"

definition out_path_of :: "string \<Rightarrow> string \<Rightarrow> string \<Rightarrow> string" where
  \<comment> \<open>the file \<open>out_path\<close> of a single-file job\<close>
  "out_path_of tmpdir u1 container = path_join tmpdir (''out-'' @ u1 @ ''.'' @ container)"

section \<open>Concrete inputs\<close>

text \<open>
  A stand-in for the floating-point operations, used where the model is evaluated at a
  concrete input: fixed-point decimals with ten fractional digits, held as the integer
  number of ten-billionths. It reads plain decimal literals only.
\<close>

definition dec_scale :: nat where
  "dec_scale = 10000000000"

definition dec_of_str :: "string \<Rightarrow> int option" where
  "dec_of_str s =
     (case split_first (CHR ''.'') s of
        (a, b) \<Rightarrow>
          (let neg = (a \<noteq> [] \<and> hd a = CHR ''-'');
               ip = (if a \<noteq> [] \<and> (hd a = CHR ''-'' \<or> hd a = CHR ''+'') then tl a else a);
               fp = (case b of None \<Rightarrow> [] | Some x \<Rightarrow> x);
               n = int (decimal_value ip * dec_scale + decimal_value (take 10 (fp @ ''0000000000'')))
           in if list_all ascii_digit ip \<and> list_all ascii_digit fp \<and> (ip \<noteq> [] \<or> fp \<noteq> [])
              then Some (if neg then - n else n) else None))"

definition str_dec :: "int \<Rightarrow> string" where
  "str_dec x =
     (let n = nat \<bar>x\<bar>;
          ds = str_nat (n mod dec_scale);
          frac = rev (dropWhile (\<lambda>c. c = CHR ''0'') (rev (drop (length ds) ''0000000000'' @ ds)))
      in (if x < 0 then ''-'' else []) @ str_nat (n div dec_scale) @ ''.''
         @ (if frac = [] then ''0'' else frac))"

definition dec_ops :: "int float_ops" where
  "dec_ops = \<lparr>float_of_str = dec_of_str,
              str_float = str_dec,
              int_float = (\<lambda>x. Inr (if x < 0 then - (\<bar>x\<bar> div int dec_scale) else x div int dec_scale)),
              float_nonzero = (\<lambda>x. x \<noteq> 0),
              radians = (\<lambda>deg. deg * 31415926500 div 180)\<rparr>"

definition demo_cfg :: config where
  \<comment> \<open>the defaults of the source: software encoder, text watermark, watermark enabled\<close>
  "demo_cfg = \<lparr>FFMPEG = ''ffmpeg'', ENCODER = ''libx264'', DEFAULT_CRF = ''23'',
               DEFAULT_PRESET = ''veryfast'', WM_ENABLED = True, WM_TEXT = ''Demo Watermark'', WM_IMAGE = [],
               WM_FONT = ''/usr/share/fonts/truetype/dejavu/DejaVuSans.ttf'',
               WM_FONTSIZE = 28, WM_OPACITY = 35, WM_INSET = 12\<rparr>"

definition demo_files :: files where
  \<comment> \<open>a file system with a watermark image and nothing else\<close>
  "demo_files = [''/wm.png'' \<mapsto> Data ''PNG'']"

definition demo_engine :: engine where
  \<comment> \<open>an engine that exits with 0 after writing its last argument, the output file (and,
      when that is the playlist of the demo job, one segment beside it), and that records
      its argument vector, joined by spaces, in the file \<open>/argv\<close>\<close>
  "demo_engine args fs =
     (let out = last args;
          fs1 = fs(''/argv'' \<mapsto> Data (join '' '' args), out \<mapsto> Data ''media'')
      in if out = ''/tmp/ffx/hls-01234567/index.m3u8''
         then Exited 0 (fs1(''/tmp/ffx/hls-01234567/seg_0000.ts'' \<mapsto> Data ''segment''))
         else Exited 0 fs1)"

definition argv_of :: "error + ((string \<times> string) \<times> files) \<Rightarrow> content option" where
  \<comment> \<open>what the demo engine recorded during a job\<close>
  "argv_of r = (case r of Inl e \<Rightarrow> None | Inr (x, fs) \<Rightarrow> fs ''/argv'')"

definition member_of :: "error + ((string \<times> string) \<times> files) \<Rightarrow> string \<Rightarrow> string \<Rightarrow> content option" where
  \<comment> \<open>the member \<open>n\<close> of the archive that a job left at the path \<open>z\<close>\<close>
  "member_of r z n =
     (case r of
        Inl e \<Rightarrow> None
      | Inr (x, fs) \<Rightarrow> (case fs z of Some (Zip m) \<Rightarrow> m n | _ \<Rightarrow> None))"

section \<open>The codec and container selector\<close>

text \<open>
  Claim C5. The selector of the CPU variant is a function of the target format alone.
  After the format is lowered (an empty format counting as mp4), it recognizes exactly
  mp4, m4v and mov (container mp4), webm (container webm, with the libvpx-vp9 video and
  libopus audio codecs), mkv, gif (whose argument list disables audio with \<open>-an\<close>) and
  hls and m3u8; every other format gets the mp4 container with the libx264 and aac pair
  of the mp4 branch.
\<close>

theorem selector_formats:
  "(norm_format fmt \<in> {''mp4'', ''m4v'', ''mov''} \<longrightarrow>
      cpu_choose_container_and_codecs fmt =
        (''mp4'', [''-c:v'', ''libx264'', ''-c:a'', ''aac'', ''-movflags'', ''+faststart'']))
   \<and> (norm_format fmt = ''webm'' \<longrightarrow>
      cpu_choose_container_and_codecs fmt =
        (''webm'', [''-c:v'', ''libvpx-vp9'', ''-row-mt'', ''1'', ''-c:a'', ''libopus'']))
   \<and> (norm_format fmt = ''mkv'' \<longrightarrow>
      cpu_choose_container_and_codecs fmt = (''mkv'', [''-c:v'', ''libx264'', ''-c:a'', ''aac'']))
   \<and> (norm_format fmt = ''gif'' \<longrightarrow>
      cpu_choose_container_and_codecs fmt = (''gif'', [''-an'', ''-loop'', ''0'']))
   \<and> (norm_format fmt \<in> {''hls'', ''m3u8''} \<longrightarrow>
      cpu_choose_container_and_codecs fmt =
        (''m3u8'', [''-c:v'', ''libx264'', ''-c:a'', ''aac'', ''-f'', ''hls'',
                    ''-hls_time'', ''4'', ''-hls_list_size'', ''0'']))
   \<and> (norm_format fmt \<notin> {''mp4'', ''m4v'', ''mov'', ''webm'', ''mkv'', ''gif'', ''hls'', ''m3u8''} \<longrightarrow>
      cpu_choose_container_and_codecs fmt =
        (''mp4'', [''-c:v'', ''libx264'', ''-c:a'', ''aac'', ''-movflags'', ''+faststart'']))"
  by (simp add: cpu_choose_container_and_codecs_def Let_def)

theorem selector_formats_witness:
  "cpu_choose_container_and_codecs ''MOV'' =
     (''mp4'', [''-c:v'', ''libx264'', ''-c:a'', ''aac'', ''-movflags'', ''+faststart''])
   \<and> cpu_choose_container_and_codecs ''webm'' =
     (''webm'', [''-c:v'', ''libvpx-vp9'', ''-row-mt'', ''1'', ''-c:a'', ''libopus''])
   \<and> cpu_choose_container_and_codecs ''gif'' = (''gif'', [''-an'', ''-loop'', ''0''])
   \<and> cpu_choose_container_and_codecs ''png'' =
     (''mp4'', [''-c:v'', ''libx264'', ''-c:a'', ''aac'', ''-movflags'', ''+faststart''])"
proof -
  have a: "norm_format ''MOV'' = ''mov''" "norm_format ''webm'' = ''webm''"
    "norm_format ''gif'' = ''gif''" "norm_format ''png'' = ''png''"
    by (simp_all add: norm_format_def lower_def lower_char_def)
  show ?thesis
    using selector_formats [of "''MOV''"] selector_formats [of "''webm''"]
      selector_formats [of "''gif''"] selector_formats [of "''png''"]
    by (simp add: a)
qed

section \<open>The rotate operation\<close>

lemma rotate_op_eq:
  "py_int fl (dget d ''degrees'' (VInt 0)) = Inr deg \<Longrightarrow>
   rotate_op fl d st =
     Inr (if deg = 90 then st\<lparr>vf_filters := vf_filters st @ [''transpose=1'']\<rparr>
          else if deg = 180 then st\<lparr>vf_filters := vf_filters st @ [''transpose=1,transpose=1'']\<rparr>
          else if deg = 270 then st\<lparr>vf_filters := vf_filters st @ [''transpose=2'']\<rparr>
          else if deg mod 90 = 0 then st
          else st\<lparr>vf_filters := vf_filters st
                  @ [''rotate='' @ str_float fl (radians fl deg) @ '':fillcolor=black'']\<rparr>)"
  by (simp add: rotate_op_def add_filter_def)

lemma cpu_step_rotate:
  "cpu_op_name d = Inr ''rotate'' \<Longrightarrow> cpu_step fl d st = rotate_op fl d st"
  by (simp add: cpu_step_def)

lemma gpu_step_rotate:
  "dget d ''op'' (VStr []) = VStr ''rotate'' \<Longrightarrow> gpu_step cfg fl d gst = rotate_op fl d gst"
  by (simp add: gpu_step_def Let_def)

lemma demo_rotate_name:
  "cpu_op_name [''op'' \<mapsto> VStr ''rotate'', ''degrees'' \<mapsto> v] = Inr ''rotate''"
  "dget [''op'' \<mapsto> VStr ''rotate'', ''degrees'' \<mapsto> v] ''op'' (VStr []) = VStr ''rotate''"
  "dget [''op'' \<mapsto> VStr ''rotate'', ''degrees'' \<mapsto> v] ''degrees'' (VInt 0) = v"
  by (simp_all add: cpu_op_name_def dget_def lower_def lower_char_def)

lemma int_of_str_minus_90: "int_of_str ''-90'' = Some (- 90)"
  by (simp add: int_of_str_def unsigned_val_def max_str_digits_def int_space_def ascii_digit_def
      digit_val_def)



text \<open>
  Claim C10. When the integer \<open>deg\<close> of a \<open>rotate\<close> operation is a multiple of 90 other
  than 90, 180 and 270 (360, 450 and -90 are such), both variants leave the state as it
  was: no filter is emitted, the angle is not normalized, and the operation has the
  effect that \<open>degrees=0\<close> has.
\<close>

theorem rotate_other_right_angles:
  assumes "py_int fl (dget d ''degrees'' (VInt 0)) = Inr deg"
    and "deg mod 90 = 0" and "deg \<noteq> 90" and "deg \<noteq> 180" and "deg \<noteq> 270"
  shows "(cpu_op_name d = Inr ''rotate'' \<longrightarrow> cpu_step fl d st = Inr st)
       \<and> (dget d ''op'' (VStr []) = VStr ''rotate'' \<longrightarrow> gpu_step cfg fl d gst = Inr gst)"
  using assms rotate_op_eq [OF assms(1), of st] rotate_op_eq [OF assms(1), of gst]
  by (simp add: cpu_step_rotate gpu_step_rotate)

theorem rotate_other_right_angles_witness:
  "cpu_step dec_ops [''op'' \<mapsto> VStr ''rotate'', ''degrees'' \<mapsto> VInt 360] (init_state []) = Inr (init_state [])
   \<and> cpu_step dec_ops [''op'' \<mapsto> VStr ''rotate'', ''degrees'' \<mapsto> VInt 450] (init_state []) = Inr (init_state [])
   \<and> cpu_step dec_ops [''op'' \<mapsto> VStr ''rotate'', ''degrees'' \<mapsto> VStr ''-90''] (init_state []) = Inr (init_state [])
   \<and> gpu_step demo_cfg dec_ops [''op'' \<mapsto> VStr ''rotate'', ''degrees'' \<mapsto> VInt 360] (gpu_init_state []) = Inr (gpu_init_state [])
   \<and> gpu_step demo_cfg dec_ops [''op'' \<mapsto> VStr ''rotate'', ''degrees'' \<mapsto> VInt 450] (gpu_init_state []) = Inr (gpu_init_state [])
   \<and> gpu_step demo_cfg dec_ops [''op'' \<mapsto> VStr ''rotate'', ''degrees'' \<mapsto> VStr ''-90''] (gpu_init_state []) = Inr (gpu_init_state [])"
proof -
  have i: "py_int dec_ops (dget [''op'' \<mapsto> VStr ''rotate'', ''degrees'' \<mapsto> VInt k] ''degrees'' (VInt 0)) = Inr k"
    for k by (simp add: demo_rotate_name)
  have j: "py_int dec_ops (dget [''op'' \<mapsto> VStr ''rotate'', ''degrees'' \<mapsto> VStr ''-90''] ''degrees'' (VInt 0)) = Inr (- 90)"
    by (simp add: demo_rotate_name int_of_str_minus_90)
  show ?thesis
    using rotate_other_right_angles [OF i [of 360], of "init_state []" demo_cfg "gpu_init_state []"]
      rotate_other_right_angles [OF i [of 450], of "init_state []" demo_cfg "gpu_init_state []"]
      rotate_other_right_angles [OF j, of "init_state []" demo_cfg "gpu_init_state []"]
    by (simp add: demo_rotate_name)
qed

section \<open>The loop over the operations\<close>

lemma cpu_ops_loop_append:
  "cpu_ops_loop fl (xs @ ys) st =
     (case cpu_ops_loop fl xs st of Inl e \<Rightarrow> Inl e | Inr st' \<Rightarrow> cpu_ops_loop fl ys st')"
  by (induction xs arbitrary: st) (auto split: sum.splits)

lemma gpu_ops_loop_append:
  "gpu_ops_loop cfg fl (xs @ ys) st =
     (case gpu_ops_loop cfg fl xs st of Inl e \<Rightarrow> Inl e | Inr st' \<Rightarrow> gpu_ops_loop cfg fl ys st')"
  by (induction xs arbitrary: st) (auto split: sum.splits)

lemma cpu_step_unrecognized:
  "cpu_op_name u = Inr n \<Longrightarrow> n \<notin> set cpu_recognized \<Longrightarrow> cpu_step fl u st = Inr st"
  by (simp add: cpu_step_def cpu_recognized_def)

lemma gpu_step_unrecognized:
  "dget u ''op'' (VStr []) \<notin> VStr ` set gpu_recognized \<Longrightarrow> gpu_step cfg fl u st = Inr st"
  by (simp add: gpu_step_def gpu_recognized_def Let_def)








section \<open>The watermark stage\<close>

lemma take_drop_app: "take n xs @ drop n xs @ ys = xs @ ys"
  by (metis append_assoc append_take_drop_id)

lemma cpu_apply_eq:
  "cpu_ops_loop fl ops (init_state c0) = Inr st \<Longrightarrow>
   cpu_apply_ops_and_watermark cfg fl fs c0 ops =
     (if image_usable cfg fs
      then Inr (cmd st @ [''-map'', ''0:a?'', ''-i'', WM_IMAGE cfg] @ vcodec_args st @ acodec_args st,
                forced_ext st, Some (''-filter_complex'', wm_chain cfg, ''-map''), is_hls st)
      else Inr (cmd st @ [''-vf'', join '','' (vf_filters st @ [wm_draw cfg])]
                  @ vcodec_args st @ acodec_args st,
                forced_ext st, None, is_hls st))"
  by (simp add: cpu_apply_ops_and_watermark_def Let_def take_drop_app del: take_append drop_append)

lemma gpu_apply_eq:
  "gpu_ops_loop cfg fl ops (gpu_init_state c0) = Inr gst \<Longrightarrow>
   gpu_apply_ops_and_watermark cfg fl fs c0 ops =
     (if WM_ENABLED cfg \<and> image_usable cfg fs
      then Inr (cmd gst, forced_ext gst, Some (''-filter_complex'', wm_chain cfg, ''-map''), is_hls gst,
                (if vf_filters gst \<noteq> [] then [''-vf'', join '','' (vf_filters gst)] else [])
                @ vcodec_args gst @ acodec_args gst @ [''[vout]''])
      else Inr (cmd gst, forced_ext gst, None, is_hls gst,
                (if vf_filters gst @ (if WM_ENABLED cfg then [wm_draw cfg] else [])
                      @ (if ENCODER cfg = ''h264_vaapi'' then [''format=nv12,hwupload''] else []) \<noteq> []
                 then [''-vf'', join '','' (vf_filters gst @ (if WM_ENABLED cfg then [wm_draw cfg] else [])
                      @ (if ENCODER cfg = ''h264_vaapi'' then [''format=nv12,hwupload''] else []))]
                 else [])
                @ vcodec_args gst @ acodec_args gst))"
  by (simp add: gpu_apply_ops_and_watermark_def Let_def)

lemma cpu_ignores_flag:
  "cpu_apply_ops_and_watermark (cfg\<lparr>WM_ENABLED := b\<rparr>) fl fs c0 ops =
   cpu_apply_ops_and_watermark cfg fl fs c0 ops"
  by (simp add: cpu_apply_ops_and_watermark_def Let_def image_usable_def wm_chain_def wm_draw_def
      split: sum.splits)

text \<open>
  Claim C1, as amended. Whenever the loop over the operations does not raise:
  \<^item> the CPU variant always emits the watermark stage, and \<open>WM_ENABLED\<close> has no effect on
    it (the variant has no enable flag): the graph tuple \<open>-filter_complex\<close>, graph,
    \<open>-map\<close> with the image as a second input when the configured image is usable, and
    otherwise the drawtext filter, appended to the filter list after every filter of the
    client's operations;
  \<^item> the GPU variant emits the stage exactly when \<open>WM_ENABLED\<close> is true: the graph tuple
    when the image is usable, otherwise the drawtext filter after every filter of the
    client's operations (only the encoder's upload step may follow it); when the flag is
    false the chain holds the operations' filters and the upload step alone.
\<close>

theorem watermark_stage:
  "(cpu_ops_loop fl ops (init_state c0) = Inr st \<longrightarrow>
      cpu_apply_ops_and_watermark cfg fl fs c0 ops =
        (if image_usable cfg fs
         then Inr (cmd st @ [''-map'', ''0:a?'', ''-i'', WM_IMAGE cfg] @ vcodec_args st @ acodec_args st,
                   forced_ext st, Some (''-filter_complex'', wm_chain cfg, ''-map''), is_hls st)
         else Inr (cmd st @ [''-vf'', join '','' (vf_filters st @ [wm_draw cfg])]
                     @ vcodec_args st @ acodec_args st,
                   forced_ext st, None, is_hls st)))
   \<and> cpu_apply_ops_and_watermark (cfg\<lparr>WM_ENABLED := b\<rparr>) fl fs c0 ops =
       cpu_apply_ops_and_watermark cfg fl fs c0 ops
   \<and> (gpu_ops_loop cfg fl ops (gpu_init_state c0) = Inr gst \<longrightarrow>
       (WM_ENABLED cfg \<and> image_usable cfg fs \<longrightarrow>
          gpu_apply_ops_and_watermark cfg fl fs c0 ops =
            Inr (cmd gst, forced_ext gst, Some (''-filter_complex'', wm_chain cfg, ''-map''), is_hls gst,
                 (if vf_filters gst \<noteq> [] then [''-vf'', join '','' (vf_filters gst)] else [])
                 @ vcodec_args gst @ acodec_args gst @ [''[vout]'']))
     \<and> (WM_ENABLED cfg \<and> \<not> image_usable cfg fs \<longrightarrow>
          gpu_apply_ops_and_watermark cfg fl fs c0 ops =
            Inr (cmd gst, forced_ext gst, None, is_hls gst,
                 [''-vf'', join '','' (vf_filters gst @ [wm_draw cfg]
                    @ (if ENCODER cfg = ''h264_vaapi'' then [''format=nv12,hwupload''] else []))]
                 @ vcodec_args gst @ acodec_args gst))
     \<and> (\<not> WM_ENABLED cfg \<longrightarrow>
          gpu_apply_ops_and_watermark cfg fl fs c0 ops =
            Inr (cmd gst, forced_ext gst, None, is_hls gst,
                 (if vf_filters gst = [] \<and> ENCODER cfg \<noteq> ''h264_vaapi'' then []
                  else [''-vf'', join '','' (vf_filters gst
                    @ (if ENCODER cfg = ''h264_vaapi'' then [''format=nv12,hwupload''] else []))])
                 @ vcodec_args gst @ acodec_args gst)))"
  using cpu_apply_eq [of fl ops c0 st cfg fs] gpu_apply_eq [of cfg fl ops c0 gst fs]
    cpu_ignores_flag [where cfg = cfg and b = b and fl = fl and fs = fs and ?c0.0 = c0 and ops = ops]
  by auto


lemma demo_cfg_fields:
  "FFMPEG demo_cfg = ''ffmpeg''" "ENCODER demo_cfg = ''libx264''" "DEFAULT_CRF demo_cfg = ''23''"
  "DEFAULT_PRESET demo_cfg = ''veryfast''"
  "WM_ENABLED demo_cfg" "WM_IMAGE demo_cfg = []"
  by (simp_all add: demo_cfg_def)

lemma wm_draw_demo:
  "wm_draw demo_cfg =
     ''drawtext=fontfile='' @ [CHR 0x27] @ ''/usr/share/fonts/truetype/dejavu/DejaVuSans.ttf''
     @ [CHR 0x27] @ '':text='' @ [CHR 0x27] @ ''Demo Watermark'' @ [CHR 0x27]
     @ '':fontsize=28:fontcolor=white@0.35:borderw=2:bordercolor=black@0.21:x=w-tw-12:y=h-th-12''"
  by (simp add: wm_draw_def demo_cfg_def clamp_opacity_def fmt_2f_def two_digits_def
      digit_char_def str_int_def str_nat.simps escape_drawtext_def replace_char_def)

lemma wm_chain_demo:
  "wm_chain (demo_cfg\<lparr>WM_IMAGE := ''/wm.png''\<rparr>) =
     ''[1:v]format=rgba,colorchannelmixer=aa=0.35[wm];[0:v][wm]overlay=W-w-12:H-h-12[vout]''"
  by (simp add: wm_chain_def demo_cfg_def clamp_opacity_def repr_hundredths_def two_digits_def
      digit_char_def str_int_def str_nat.simps)

lemma demo_gray_loops:
  "cpu_ops_loop dec_ops [[''op'' \<mapsto> VStr ''grayscale'']] (init_state c0) =
     Inr ((init_state c0)\<lparr>vf_filters := [''format=gray'']\<rparr>)"
  "gpu_ops_loop cfg dec_ops [[''op'' \<mapsto> VStr ''grayscale'']] (gpu_init_state c0) =
     Inr ((gpu_init_state c0)\<lparr>vf_filters := [''format=gray'']\<rparr>)"
  by (simp_all add: cpu_step_def gpu_step_def cpu_op_name_def dget_def lower_def lower_char_def
      add_filter_def init_state_def gpu_init_state_def)

lemma demo_image_usable:
  "image_usable (demo_cfg\<lparr>WM_IMAGE := ''/wm.png''\<rparr>) demo_files"
  "\<not> image_usable demo_cfg fs"
  by (simp_all add: image_usable_def demo_cfg_def demo_files_def path_exists_def)

theorem watermark_stage_witness:
  "cpu_apply_ops_and_watermark demo_cfg dec_ops Map.empty [''ffmpeg''] [[''op'' \<mapsto> VStr ''grayscale'']] =
     Inr ([''ffmpeg'', ''-vf'', ''format=gray,'' @ wm_draw demo_cfg], None, None, False)
   \<and> cpu_apply_ops_and_watermark (demo_cfg\<lparr>WM_IMAGE := ''/wm.png''\<rparr>) dec_ops demo_files [''ffmpeg'']
        [[''op'' \<mapsto> VStr ''grayscale'']] =
     Inr ([''ffmpeg'', ''-map'', ''0:a?'', ''-i'', ''/wm.png''], None,
          Some (''-filter_complex'', wm_chain (demo_cfg\<lparr>WM_IMAGE := ''/wm.png''\<rparr>), ''-map''), False)
   \<and> gpu_apply_ops_and_watermark demo_cfg dec_ops Map.empty [''ffmpeg''] [[''op'' \<mapsto> VStr ''grayscale'']] =
     Inr ([''ffmpeg''], None, None, False, [''-vf'', ''format=gray,'' @ wm_draw demo_cfg])
   \<and> gpu_apply_ops_and_watermark (demo_cfg\<lparr>WM_IMAGE := ''/wm.png''\<rparr>) dec_ops demo_files [''ffmpeg'']
        [[''op'' \<mapsto> VStr ''grayscale'']] =
     Inr ([''ffmpeg''], None,
          Some (''-filter_complex'', wm_chain (demo_cfg\<lparr>WM_IMAGE := ''/wm.png''\<rparr>), ''-map''), False,
          [''-vf'', ''format=gray'', ''[vout]''])
   \<and> gpu_apply_ops_and_watermark (demo_cfg\<lparr>WM_ENABLED := False\<rparr>) dec_ops Map.empty [''ffmpeg'']
        [[''op'' \<mapsto> VStr ''grayscale'']] =
     Inr ([''ffmpeg''], None, None, False, [''-vf'', ''format=gray''])"
proof -
  let ?ops = "[[''op'' \<mapsto> VStr ''grayscale'']] :: int descriptor list"
  let ?img = "demo_cfg\<lparr>WM_IMAGE := ''/wm.png''\<rparr>"
  let ?off = "demo_cfg\<lparr>WM_ENABLED := False\<rparr>"
  let ?st = "(init_state [''ffmpeg''])\<lparr>vf_filters := [''format=gray'']\<rparr>"
  let ?gst = "(gpu_init_state [''ffmpeg''])\<lparr>vf_filters := [''format=gray'']\<rparr>"
  have e: "WM_ENABLED demo_cfg" "WM_ENABLED ?img" "\<not> WM_ENABLED ?off"
    "ENCODER demo_cfg \<noteq> ''h264_vaapi''" "ENCODER ?img \<noteq> ''h264_vaapi''" "ENCODER ?off \<noteq> ''h264_vaapi''"
    "WM_IMAGE ?img = ''/wm.png''"
    unfolding demo_cfg_def by simp_all
  have f: "cmd ?st = [''ffmpeg'']" "vf_filters ?st = [''format=gray'']" "forced_ext ?st = None"
    "is_hls ?st = False" "vcodec_args ?st = []" "acodec_args ?st = []"
    "cmd ?gst = [''ffmpeg'']" "vf_filters ?gst = [''format=gray'']" "forced_ext ?gst = None"
    "is_hls ?gst = False" "vcodec_args ?gst = []" "acodec_args ?gst = []"
    by (simp_all add: init_state_def gpu_init_state_def)
  have w: "wm_draw ?off = wm_draw demo_cfg"
    by (simp add: wm_draw_def)
  show ?thesis
    using watermark_stage [of dec_ops ?ops "[''ffmpeg'']" ?st demo_cfg Map.empty True ?gst]
      watermark_stage [of dec_ops ?ops "[''ffmpeg'']" ?st ?img demo_files True ?gst]
      watermark_stage [of dec_ops ?ops "[''ffmpeg'']" ?st ?off Map.empty True ?gst]
    by (simp add: demo_gray_loops demo_image_usable e w f del: cpu_ops_loop.simps gpu_ops_loop.simps)
qed

text \<open>
  The claim as stated fails in its last part. With \<open>WM_ENABLED\<close> false and no operation,
  the CPU variant still compiles the drawtext filter into the command and the GPU
  variant compiles no filter at all: the two do not expose the same behaviour.
\<close>

theorem watermark_flag_counterexample:
  "cpu_apply_ops_and_watermark (demo_cfg\<lparr>WM_ENABLED := False\<rparr>) dec_ops Map.empty [''ffmpeg''] [] =
     Inr ([''ffmpeg'', ''-vf'',
           ''drawtext=fontfile='' @ [CHR 0x27] @ ''/usr/share/fonts/truetype/dejavu/DejaVuSans.ttf''
           @ [CHR 0x27] @ '':text='' @ [CHR 0x27] @ ''Demo Watermark'' @ [CHR 0x27]
           @ '':fontsize=28:fontcolor=white@0.35:borderw=2:bordercolor=black@0.21:x=w-tw-12:y=h-th-12''],
          None, None, False)
   \<and> gpu_apply_ops_and_watermark (demo_cfg\<lparr>WM_ENABLED := False\<rparr>) dec_ops Map.empty [''ffmpeg''] [] =
     Inr ([''ffmpeg''], None, None, False, [])"
proof -
  have w: "wm_draw (demo_cfg\<lparr>WM_ENABLED := False\<rparr>) = wm_draw demo_cfg"
    by (simp add: wm_draw_def)
  have i: "\<not> image_usable (demo_cfg\<lparr>WM_ENABLED := False\<rparr>) Map.empty"
    by (simp add: image_usable_def demo_cfg_def)
  have c: "cpu_apply_ops_and_watermark (demo_cfg\<lparr>WM_ENABLED := False\<rparr>) dec_ops Map.empty [''ffmpeg''] [] =
     Inr ([''ffmpeg'', ''-vf'', wm_draw demo_cfg], None, None, False)"
    by (simp add: cpu_apply_ops_and_watermark_def Let_def i w init_state_def)
  have g: "gpu_apply_ops_and_watermark (demo_cfg\<lparr>WM_ENABLED := False\<rparr>) dec_ops Map.empty [''ffmpeg''] [] =
     Inr ([''ffmpeg''], None, None, False, [])"
    by (simp add: gpu_apply_ops_and_watermark_def Let_def demo_cfg_fields gpu_init_state_def)
  show ?thesis
    using c g by (simp add: wm_draw_demo)
qed

section \<open>The argument vector of a job\<close>

lemma gpu_process_video_eq:
  assumes "gpu_base_cmd cfg inp = Inr c0"
    and "gpu_apply_ops_and_watermark cfg fl fs c0 ops = Inr (cmd1, fe, cx, hls, vfc)"
  shows "gpu_process_video cfg fl eng u1 u2 inp ops tmpdir fs =
     (if (case fe of None \<Rightarrow> False | Some x \<Rightarrow> x = ''hls'' \<or> x = ''m3u8'') \<or> hls then
        (case makedirs (path_join tmpdir (''hls-'' @ take 8 u1)) fs of
           Inl e \<Rightarrow> Inl e
         | Inr fs1 \<Rightarrow>
             (case run eng (gpu_final_args cmd1 cx vfc (snd (gpu_choose_container_and_codecs cfg ''hls''))
                             [''-hls_segment_filename'',
                              path_join (path_join tmpdir (''hls-'' @ take 8 u1)) ''seg_%04d.ts'',
                              path_join (path_join tmpdir (''hls-'' @ take 8 u1)) ''index.m3u8'']) fs1 of
                Inl e \<Rightarrow> Inl e
              | Inr fs2 \<Rightarrow>
                  Inr ((path_join tmpdir (''hls_'' @ take 8 u2 @ ''.zip''), ''application/zip''),
                       zip_dir (path_join tmpdir (''hls-'' @ take 8 u1))
                         (path_join tmpdir (''hls_'' @ take 8 u2 @ ''.zip'')) fs2)))
      else
        (case run eng (gpu_final_args cmd1 cx vfc
                         (snd (gpu_choose_container_and_codecs cfg (resolve_ext fe)))
                         [path_join tmpdir (''out-'' @ u1 @ ''.''
                            @ fst (gpu_choose_container_and_codecs cfg (resolve_ext fe)))]) fs of
           Inl e \<Rightarrow> Inl e
         | Inr fs2 \<Rightarrow>
             Inr ((path_join tmpdir (''out-'' @ u1 @ ''.''
                     @ fst (gpu_choose_container_and_codecs cfg (resolve_ext fe))),
                   media_type_of (fst (gpu_choose_container_and_codecs cfg (resolve_ext fe)))), fs2)))"
  using assms by (simp add: gpu_process_video_def Let_def split: prod.splits sum.splits)

lemma cpu_process_video_eq:
  assumes "cpu_apply_ops_and_watermark cfg fl fs (cpu_base_cmd cfg inp) ops = Inr (cmd1, fe, cx, hls)"
  shows "cpu_process_video cfg fl eng u1 u2 inp ops tmpdir fs =
     (if hls then
        (case makedirs (path_join tmpdir (''hls-'' @ take 8 u1)) fs of
           Inl e \<Rightarrow> Inl e
         | Inr fs1 \<Rightarrow>
             (case run eng (cpu_final_args cmd1 cx (snd (cpu_choose_container_and_codecs ''hls''))
                             [''-hls_segment_filename'',
                              path_join (path_join tmpdir (''hls-'' @ take 8 u1)) ''seg_%04d.ts'',
                              path_join (path_join tmpdir (''hls-'' @ take 8 u1)) ''index.m3u8'']) fs1 of
                Inl e \<Rightarrow> Inl e
              | Inr fs2 \<Rightarrow>
                  Inr ((path_join tmpdir (''hls_'' @ take 8 u2 @ ''.zip''), ''application/zip''),
                       zip_dir (path_join tmpdir (''hls-'' @ take 8 u1))
                         (path_join tmpdir (''hls_'' @ take 8 u2 @ ''.zip'')) fs2)))
      else
        (case run eng (cpu_final_args cmd1 cx
                         (snd (cpu_choose_container_and_codecs (resolve_ext fe)))
                         [path_join tmpdir (''out-'' @ u1 @ ''.''
                            @ fst (cpu_choose_container_and_codecs (resolve_ext fe)))]) fs of
           Inl e \<Rightarrow> Inl e
         | Inr fs2 \<Rightarrow>
             Inr ((path_join tmpdir (''out-'' @ u1 @ ''.''
                     @ fst (cpu_choose_container_and_codecs (resolve_ext fe))),
                   media_type_of (fst (cpu_choose_container_and_codecs (resolve_ext fe)))), fs2)))"
  using assms by (simp add: cpu_process_video_def Let_def split: prod.splits sum.splits)


lemma gpu_job_vaapi:
  "ENCODER cfg = ''h264_vaapi'' \<Longrightarrow>
   gpu_process_video cfg fl eng u1 u2 inp ops tmpdir fs = Inl NameError"
  by (simp add: gpu_process_video_def gpu_base_cmd_def)

lemma demo_gray_loop_gpu:
  "gpu_ops_loop cfg dec_ops [[''op'' \<mapsto> VStr ''grayscale'']] (gpu_init_state c0) =
     Inr \<lparr>cmd = c0, vf_filters = [''format=gray''], forced_ext = None, is_hls = False,
          vcodec_args = [], acodec_args = [], used_scale = False\<rparr>"
  by (simp add: gpu_step_def dget_def add_filter_def gpu_init_state_def)

lemma demo_gpu_parse_gray:
  "gpu_parse_ops_query dec_ops [''grayscale''] = [[''op'' \<mapsto> VStr ''grayscale'']]"
  by (simp add: gpu_parse_ops_query_def parse_op_def strip_def isspace_def lower_def lower_char_def)

text \<open>
  Claim C9. The compiler of the GPU variant, handed a command list, does what the claim
  says on the linear chain: with \<open>ENCODER\<close> set to \<open>h264_vaapi\<close> it appends
  \<open>format=nv12,hwupload\<close> after the filters of the operations and the drawtext filter. But
  a job never gets that far. \<open>process_video\<close> first builds the command list with
  \<open>_base_cmd\<close>, whose hardware branch reads \<open>VAAPI_DEVICE\<close>, a name the module assigns
  nowhere: the read raises NameError, the compiler is not called, the engine is not
  started and no argument vector exists. Evaluated here for the job with the one operation
  \<open>grayscale\<close> and the defaults of the source but for the encoder; the second part is the
  compiler on the same operations and a command list supplied by hand.
\<close>

theorem vaapi_job_name_error:
  "gpu_process_video (demo_cfg\<lparr>ENCODER := ''h264_vaapi''\<rparr>) dec_ops demo_engine
      ''0123456789abcdef'' ''fedcba9876543210'' ''in.mp4''
      (gpu_parse_ops_query dec_ops [''grayscale'']) ''/tmp/ffx'' Map.empty = Inl NameError
   \<and> gpu_base_cmd (demo_cfg\<lparr>ENCODER := ''h264_vaapi''\<rparr>) ''in.mp4'' = Inl NameError
   \<and> gpu_apply_ops_and_watermark (demo_cfg\<lparr>ENCODER := ''h264_vaapi''\<rparr>) dec_ops Map.empty
        [''ffmpeg'', ''-i'', ''in.mp4''] (gpu_parse_ops_query dec_ops [''grayscale'']) =
      Inr ([''ffmpeg'', ''-i'', ''in.mp4''], None, None, False,
           [''-vf'', ''format=gray,'' @ wm_draw demo_cfg @ '',format=nv12,hwupload''])"
proof -
  let ?c = "demo_cfg\<lparr>ENCODER := ''h264_vaapi''\<rparr>"
  have e: "ENCODER ?c = ''h264_vaapi''" "WM_ENABLED ?c" "\<not> image_usable ?c Map.empty"
    by (simp_all add: demo_cfg_def image_usable_def)
  have w: "wm_draw ?c = wm_draw demo_cfg"
    by (simp add: wm_draw_def)
  have j: "gpu_process_video ?c dec_ops demo_engine
      ''0123456789abcdef'' ''fedcba9876543210'' ''in.mp4''
      (gpu_parse_ops_query dec_ops [''grayscale'']) ''/tmp/ffx'' Map.empty = Inl NameError"
    by (rule gpu_job_vaapi [OF e(1)])
  have b: "gpu_base_cmd ?c ''in.mp4'' = Inl NameError"
    by (simp add: gpu_base_cmd_def e)
  have a: "gpu_apply_ops_and_watermark ?c dec_ops Map.empty
        [''ffmpeg'', ''-i'', ''in.mp4''] (gpu_parse_ops_query dec_ops [''grayscale'']) =
      Inr ([''ffmpeg'', ''-i'', ''in.mp4''], None, None, False,
           [''-vf'', ''format=gray,'' @ wm_draw demo_cfg @ '',format=nv12,hwupload''])"
    unfolding demo_gpu_parse_gray
    using gpu_apply_eq [OF demo_gray_loop_gpu, where cfg = ?c and fs = Map.empty
        and ?c0.0 = "[''ffmpeg'', ''-i'', ''in.mp4'']"]
    by (simp add: e w)
  from j b a show ?thesis by simp
qed

section \<open>The output extension\<close>

lemma cpu_step_format:
  "cpu_op_name f = Inr ''format'' \<Longrightarrow>
   cpu_step fl f st =
     Inr (st\<lparr>forced_ext := Some (format_type fl f),
             is_hls := (if format_type fl f = ''hls'' \<or> format_type fl f = ''m3u8'' then True
                        else is_hls st)\<rparr>)"
  by (simp add: cpu_step_def Let_def)

lemma rotate_op_fields:
  "rotate_op fl d st = Inr st' \<Longrightarrow>
   forced_ext st' = forced_ext st \<and> is_hls st' = is_hls st \<and> cmd st' = cmd st
   \<and> vcodec_args st' = vcodec_args st \<and> acodec_args st' = acodec_args st"
  by (auto simp: rotate_op_def add_filter_def split: sum.splits if_splits)

lemma cpu_step_plain:
  assumes "cpu_op_name d = Inr n" and "n \<noteq> ''format''" and "n \<noteq> ''thumbnail''"
    and "cpu_step fl d st = Inr st'"
  shows "forced_ext st' = forced_ext st \<and> is_hls st' = is_hls st"
proof (cases "n \<in> set cpu_recognized")
  case False
  from cpu_step_unrecognized [OF assms(1) this] assms(4) show ?thesis by simp
next
  case True
  then have "n = ''format'' \<or> n = ''scale'' \<or> n = ''resize'' \<or> n = ''fps'' \<or> n = ''crop''
    \<or> n = ''bitrate'' \<or> n = ''crf'' \<or> n = ''preset'' \<or> n = ''audio'' \<or> n = ''rotate''
    \<or> n = ''grayscale'' \<or> n = ''monochrome'' \<or> n = ''thumbnail''"
    by (simp add: cpu_recognized_def)
  with assms show ?thesis
    by (elim disjE) (auto simp: cpu_step_def add_filter_def dest: rotate_op_fields split: if_splits)
qed

lemma cpu_step_thumbnail:
  "cpu_op_name d = Inr ''thumbnail'' \<Longrightarrow>
   cpu_step fl d st =
     Inr (st\<lparr>cmd := cmd st @ [''-ss'', py_str fl (dget d ''at'' (VInt 1)), ''-frames:v'', ''1''],
             forced_ext := (if ext_unset (forced_ext st) then Some ''png'' else forced_ext st)\<rparr>)"
  by (simp add: cpu_step_def)

lemma cpu_step_forced_ext:
  assumes "cpu_step fl d st = Inr st'" and "cpu_op_name d \<noteq> Inr ''format''"
  shows "forced_ext st' =
           (if cpu_op_name d = Inr ''thumbnail'' \<and> ext_unset (forced_ext st) then Some ''png''
            else forced_ext st)
         \<and> is_hls st' = is_hls st"
proof (cases "cpu_op_name d")
  case (Inl e)
  with assms show ?thesis by (simp add: cpu_step_def)
next
  case (Inr n)
  show ?thesis
  proof (cases "n = ''thumbnail''")
    case True
    with Inr assms(1) cpu_step_thumbnail [of d fl st] show ?thesis by auto
  next
    case False
    from assms(2) Inr have "n \<noteq> ''format''" by simp
    from cpu_step_plain [OF Inr this False assms(1)] Inr False show ?thesis by simp
  qed
qed

lemma cpu_loop_forced_ext_aux:
  "cpu_ops_loop fl ops st = Inr st' \<Longrightarrow> \<not> list_ex (\<lambda>d. cpu_op_name d = Inr ''format'') ops \<Longrightarrow>
   forced_ext st' =
     (if ext_unset (forced_ext st) \<and> list_ex (\<lambda>d. cpu_op_name d = Inr ''thumbnail'') ops
      then Some ''png'' else forced_ext st)
   \<and> is_hls st' = is_hls st"
proof (induction ops arbitrary: st)
  case Nil
  then show ?case by simp
next
  case (Cons d ds)
  from Cons.prems(1) obtain s1 where s1: "cpu_step fl d st = Inr s1" and l: "cpu_ops_loop fl ds s1 = Inr st'"
    by (auto split: sum.splits)
  from Cons.prems(2) have nf: "cpu_op_name d \<noteq> Inr ''format''"
    and nfs: "\<not> list_ex (\<lambda>d. cpu_op_name d = Inr ''format'') ds"
    by simp_all
  note a = cpu_step_forced_ext [OF s1 nf]
  note b = Cons.IH [OF l nfs]
  have u: "\<not> ext_unset (Some ''png'')"
    by (simp add: ext_unset_def)
  show ?case
  proof (cases "cpu_op_name d = Inr ''thumbnail''")
    case True
    with a b u show ?thesis by (cases "ext_unset (forced_ext st)") simp_all
  next
    case False
    with a b show ?thesis by simp
  qed
qed

lemma cpu_loop_forced_ext:
  assumes "cpu_ops_loop fl ops st = Inr st'" and "\<forall>d\<in>set ops. cpu_op_name d \<noteq> Inr ''format''"
  shows "forced_ext st' =
     (if ext_unset (forced_ext st) \<and> (\<exists>d\<in>set ops. cpu_op_name d = Inr ''thumbnail'')
      then Some ''png'' else forced_ext st)
   \<and> is_hls st' = is_hls st"
proof -
  from assms(2) have "\<not> list_ex (\<lambda>d. cpu_op_name d = Inr ''format'') ops"
    by (simp add: list_ex_iff)
  from cpu_loop_forced_ext_aux [OF assms(1) this] show ?thesis
    by (simp add: list_ex_iff)
qed

lemma resolve_ext_simps:
  "resolve_ext None = ''mp4''"
  "resolve_ext (Some e) = (if e = [] then ''mp4'' else e)"
  by (simp_all add: resolve_ext_def ext_unset_def)

text \<open>
  Claim C2, as amended. Whenever the CPU variant's compiler returns, one extension is
  resolved for the job, \<open>forced_ext or "mp4"\<close>:
  \<^item> when a \<open>format\<close> operation is present and the type of the last one, as lowered
    text, is not empty, that text is the extension, whatever operations stand before
    and after it (a \<open>format\<close> operation without a \<open>type\<close> counts as mp4);
  \<^item> when no \<open>format\<close> operation is present and a \<open>thumbnail\<close> operation is, the
    extension is the image extension png;
  \<^item> otherwise the extension is mp4, the extension of the container selected for it.
\<close>

theorem output_extension:
  assumes "cpu_apply_ops_and_watermark cfg fl fs c0 ops = Inr (cmd1, fe, cx, hls)"
  shows "(ops = xs @ f # ys \<and> cpu_op_name f = Inr ''format''
            \<and> (\<forall>d\<in>set ys. cpu_op_name d \<noteq> Inr ''format'') \<and> format_type fl f \<noteq> [] \<longrightarrow>
          resolve_ext fe = format_type fl f)
       \<and> ((\<forall>d\<in>set ops. cpu_op_name d \<noteq> Inr ''format'')
            \<and> (\<exists>d\<in>set ops. cpu_op_name d = Inr ''thumbnail'') \<longrightarrow>
          resolve_ext fe = ''png'')
       \<and> ((\<forall>d\<in>set ops. cpu_op_name d \<noteq> Inr ''format'')
            \<and> (\<forall>d\<in>set ops. cpu_op_name d \<noteq> Inr ''thumbnail'') \<longrightarrow>
          resolve_ext fe = ''mp4'' \<and> fst (cpu_choose_container_and_codecs (resolve_ext fe)) = ''mp4'')"
proof -
  from assms obtain st where l: "cpu_ops_loop fl ops (init_state c0) = Inr st"
    by (auto simp: cpu_apply_ops_and_watermark_def split: sum.splits)
  from cpu_apply_eq [OF l, of cfg fs] assms have fe: "fe = forced_ext st"
    by (simp split: if_splits)
  have i: "forced_ext (init_state c0) = None"
    by (simp add: init_state_def)
  have a: "resolve_ext fe = format_type fl f"
    if "ops = xs @ f # ys" "cpu_op_name f = Inr ''format''"
      "\<forall>d\<in>set ys. cpu_op_name d \<noteq> Inr ''format''" "format_type fl f \<noteq> []"
  proof -
    from l that(1) obtain s1 where s1: "cpu_ops_loop fl xs (init_state c0) = Inr s1"
      and r: "cpu_ops_loop fl (f # ys) s1 = Inr st"
      by (auto simp: cpu_ops_loop_append split: sum.splits)
    let ?s2 = "s1\<lparr>forced_ext := Some (format_type fl f),
             is_hls := (if format_type fl f = ''hls'' \<or> format_type fl f = ''m3u8'' then True
                        else is_hls s1)\<rparr>"
    from r cpu_step_format [OF that(2), of fl s1] have "cpu_ops_loop fl ys ?s2 = Inr st"
      by simp
    from cpu_loop_forced_ext [OF this that(3)] that(4) have "forced_ext st = Some (format_type fl f)"
      by (simp add: ext_unset_def)
    with fe that(4) show ?thesis by (simp add: resolve_ext_simps)
  qed
  have b: "resolve_ext fe = ''png''"
    if "\<forall>d\<in>set ops. cpu_op_name d \<noteq> Inr ''format''" "\<exists>d\<in>set ops. cpu_op_name d = Inr ''thumbnail''"
    using cpu_loop_forced_ext [OF l that(1)] that(2) fe i
    by (simp add: ext_unset_def resolve_ext_simps)
  have c: "resolve_ext fe = ''mp4'' \<and> fst (cpu_choose_container_and_codecs (resolve_ext fe)) = ''mp4''"
    if "\<forall>d\<in>set ops. cpu_op_name d \<noteq> Inr ''format''" "\<forall>d\<in>set ops. cpu_op_name d \<noteq> Inr ''thumbnail''"
    using cpu_loop_forced_ext [OF l that(1)] that(2) fe i
    by (simp add: ext_unset_def resolve_ext_simps cpu_choose_container_and_codecs_def norm_format_def
        lower_def lower_char_def)
  show ?thesis
  proof (intro conjI impI)
    assume "ops = xs @ f # ys \<and> cpu_op_name f = Inr ''format''
            \<and> (\<forall>d\<in>set ys. cpu_op_name d \<noteq> Inr ''format'') \<and> format_type fl f \<noteq> []"
    then show "resolve_ext fe = format_type fl f" using a by simp
  next
    assume h: "(\<forall>d\<in>set ops. cpu_op_name d \<noteq> Inr ''format'')
            \<and> (\<exists>d\<in>set ops. cpu_op_name d = Inr ''thumbnail'')"
    from h have h1: "\<forall>d\<in>set ops. cpu_op_name d \<noteq> Inr ''format''"
      and h2: "\<exists>d\<in>set ops. cpu_op_name d = Inr ''thumbnail''" by simp_all
    from b [OF h1 h2] show "resolve_ext fe = ''png''" .
  next
    assume h: "(\<forall>d\<in>set ops. cpu_op_name d \<noteq> Inr ''format'')
            \<and> (\<forall>d\<in>set ops. cpu_op_name d \<noteq> Inr ''thumbnail'')"
    from h have h1: "\<forall>d\<in>set ops. cpu_op_name d \<noteq> Inr ''format''"
      and h2: "\<forall>d\<in>set ops. cpu_op_name d \<noteq> Inr ''thumbnail''" by simp_all
    note cc = c [OF h1 h2]
    from cc show "resolve_ext fe = ''mp4''" by (rule conjunct1)
    from cc show "fst (cpu_choose_container_and_codecs (resolve_ext fe)) = ''mp4''" by (rule conjunct2)
  qed
qed


lemmas parse_eval =
  parse_ops_query_def gpu_parse_ops_query_def parse_op_def parse_part_def coerce_def strip_def
  isspace_def lower_def lower_char_def isdigit_def isdigit_char_def

lemmas cpu_eval =
  cpu_apply_ops_and_watermark_def cpu_step_def cpu_op_name_def dget_def lower_def lower_char_def
  add_filter_def init_state_def image_usable_def demo_cfg_fields Let_def format_type_def
  ext_unset_def str_int_def str_nat.simps digit_char_def

lemma demo_parse_empty_type:
  "parse_ops_query dec_ops [''format:type='', ''thumbnail''] =
     [[''op'' \<mapsto> VStr ''format'', ''type'' \<mapsto> VStr []], [''op'' \<mapsto> VStr ''thumbnail'']]"
  "parse_ops_query dec_ops [''thumbnail'', ''format:type=''] =
     [[''op'' \<mapsto> VStr ''thumbnail''], [''op'' \<mapsto> VStr ''format'', ''type'' \<mapsto> VStr []]]"
  by (simp_all add: parse_eval)

text \<open>
  The claim as stated fails for a \<open>format\<close> operation whose type is empty, which the
  parser produces from \<open>format:type=\<close>: its position decides. Before a \<open>thumbnail\<close>
  operation it leaves the extension unset and the thumbnail makes it png; after the
  thumbnail it replaces png by the empty text, for which the default mp4 stands in.
\<close>

theorem output_extension_counterexample:
  "cpu_apply_ops_and_watermark demo_cfg dec_ops Map.empty [''ffmpeg'']
     (parse_ops_query dec_ops [''format:type='', ''thumbnail'']) =
     Inr ([''ffmpeg'', ''-ss'', ''1'', ''-frames:v'', ''1'', ''-vf'', wm_draw demo_cfg],
          Some ''png'', None, False)
   \<and> resolve_ext (Some ''png'') = ''png''
   \<and> cpu_apply_ops_and_watermark demo_cfg dec_ops Map.empty [''ffmpeg'']
     (parse_ops_query dec_ops [''thumbnail'', ''format:type='']) =
     Inr ([''ffmpeg'', ''-ss'', ''1'', ''-frames:v'', ''1'', ''-vf'', wm_draw demo_cfg],
          Some [], None, False)
   \<and> resolve_ext (Some []) = ''mp4''"
  by (simp add: demo_parse_empty_type cpu_eval resolve_ext_simps)

lemma demo_ext_jobs:
  "cpu_apply_ops_and_watermark demo_cfg dec_ops Map.empty [''ffmpeg'']
     ([[''op'' \<mapsto> VStr ''thumbnail'']]
      @ [''op'' \<mapsto> VStr ''format'', ''type'' \<mapsto> VStr ''WebM''] # [[''op'' \<mapsto> VStr ''fps'']]) =
     Inr ([''ffmpeg'', ''-ss'', ''1'', ''-frames:v'', ''1'', ''-vf'', ''fps=30,'' @ wm_draw demo_cfg],
          Some ''webm'', None, False)"
  "cpu_apply_ops_and_watermark demo_cfg dec_ops Map.empty [''ffmpeg'']
     [[''op'' \<mapsto> VStr ''fps''], [''op'' \<mapsto> VStr ''thumbnail'']] =
     Inr ([''ffmpeg'', ''-ss'', ''1'', ''-frames:v'', ''1'', ''-vf'', ''fps=30,'' @ wm_draw demo_cfg],
          Some ''png'', None, False)"
  "cpu_apply_ops_and_watermark demo_cfg dec_ops Map.empty [''ffmpeg''] [[''op'' \<mapsto> VStr ''fps'']] =
     Inr ([''ffmpeg'', ''-vf'', ''fps=30,'' @ wm_draw demo_cfg], None, None, False)"
  by (simp_all add: cpu_eval)

theorem output_extension_witness:
  "cpu_apply_ops_and_watermark demo_cfg dec_ops Map.empty [''ffmpeg'']
     [[''op'' \<mapsto> VStr ''thumbnail''], [''op'' \<mapsto> VStr ''format'', ''type'' \<mapsto> VStr ''WebM''],
      [''op'' \<mapsto> VStr ''fps'']] =
     Inr ([''ffmpeg'', ''-ss'', ''1'', ''-frames:v'', ''1'', ''-vf'', ''fps=30,'' @ wm_draw demo_cfg],
          Some ''webm'', None, False)
   \<and> resolve_ext (Some ''webm'') = ''webm''
   \<and> cpu_apply_ops_and_watermark demo_cfg dec_ops Map.empty [''ffmpeg'']
     [[''op'' \<mapsto> VStr ''fps''], [''op'' \<mapsto> VStr ''thumbnail'']] =
     Inr ([''ffmpeg'', ''-ss'', ''1'', ''-frames:v'', ''1'', ''-vf'', ''fps=30,'' @ wm_draw demo_cfg],
          Some ''png'', None, False)
   \<and> resolve_ext (Some ''png'') = ''png''
   \<and> cpu_apply_ops_and_watermark demo_cfg dec_ops Map.empty [''ffmpeg''] [[''op'' \<mapsto> VStr ''fps'']] =
     Inr ([''ffmpeg'', ''-vf'', ''fps=30,'' @ wm_draw demo_cfg], None, None, False)
   \<and> resolve_ext None = ''mp4''"
proof -
  let ?t = "[''op'' \<mapsto> VStr ''thumbnail''] :: int descriptor"
  let ?f = "[''op'' \<mapsto> VStr ''format'', ''type'' \<mapsto> VStr ''WebM''] :: int descriptor"
  let ?p = "[''op'' \<mapsto> VStr ''fps''] :: int descriptor"
  have n: "cpu_op_name ?t = Inr ''thumbnail''" "cpu_op_name ?f = Inr ''format''"
    "cpu_op_name ?p = Inr ''fps''" "format_type dec_ops ?f = ''webm''"
    by (simp_all add: cpu_op_name_def dget_def lower_def lower_char_def format_type_def)
  show ?thesis
    using output_extension [OF demo_ext_jobs(1), of "[?t]" ?f "[?p]"]
      output_extension [OF demo_ext_jobs(2), of "[]" ?p "[?t]"]
      output_extension [OF demo_ext_jobs(3), of "[]" ?p "[]"]
      demo_ext_jobs
    by (simp add: n)
qed

section \<open>The content type of a single file\<close>

lemma cpu_loop_hls_invariant:
  "cpu_ops_loop fl ops st = Inr st' \<Longrightarrow>
   (forced_ext st = Some ''hls'' \<or> forced_ext st = Some ''m3u8'' \<longrightarrow> is_hls st) \<Longrightarrow>
   (forced_ext st' = Some ''hls'' \<or> forced_ext st' = Some ''m3u8'' \<longrightarrow> is_hls st')"
proof (induction ops arbitrary: st)
  case Nil
  then show ?case by simp
next
  case (Cons d ds)
  from Cons.prems(1) obtain s1 where s1: "cpu_step fl d st = Inr s1" and l: "cpu_ops_loop fl ds s1 = Inr st'"
    by (auto split: sum.splits)
  have "forced_ext s1 = Some ''hls'' \<or> forced_ext s1 = Some ''m3u8'' \<longrightarrow> is_hls s1"
  proof (cases "cpu_op_name d = Inr ''format''")
    case True
    from s1 cpu_step_format [OF True, of fl st] show ?thesis by auto
  next
    case False
    from cpu_step_forced_ext [OF s1 False] Cons.prems(2) show ?thesis
      by (simp split: if_splits)
  qed
  from Cons.IH [OF l this] show ?case .
qed

lemma cpu_loop_hls_sticky:
  "cpu_ops_loop fl ops st = Inr st' \<Longrightarrow> is_hls st \<Longrightarrow> is_hls st'"
proof (induction ops arbitrary: st)
  case Nil
  then show ?case by simp
next
  case (Cons d ds)
  from Cons.prems(1) obtain s1 where s1: "cpu_step fl d st = Inr s1" and l: "cpu_ops_loop fl ds s1 = Inr st'"
    by (auto split: sum.splits)
  have "is_hls s1"
  proof (cases "cpu_op_name d = Inr ''format''")
    case True
    from s1 cpu_step_format [OF True, of fl st] Cons.prems(2) show ?thesis by auto
  next
    case False
    from cpu_step_forced_ext [OF s1 False] Cons.prems(2) show ?thesis by simp
  qed
  from Cons.IH [OF l this] show ?case .
qed

lemma cpu_loop_hls_requested:
  assumes "cpu_ops_loop fl ops st = Inr st'" and "f \<in> set ops" and "cpu_op_name f = Inr ''format''"
    and "format_type fl f = ''hls'' \<or> format_type fl f = ''m3u8''"
  shows "is_hls st'"
proof -
  from assms(2) obtain xs ys where o: "ops = xs @ f # ys"
    by (auto simp: in_set_conv_decomp)
  from assms(1) o obtain s1 where r: "cpu_ops_loop fl (f # ys) s1 = Inr st'"
    by (auto simp: cpu_ops_loop_append split: sum.splits)
  let ?s2 = "s1\<lparr>forced_ext := Some (format_type fl f),
             is_hls := (if format_type fl f = ''hls'' \<or> format_type fl f = ''m3u8'' then True
                        else is_hls s1)\<rparr>"
  from r cpu_step_format [OF assms(3), of fl s1] have l: "cpu_ops_loop fl ys ?s2 = Inr st'"
    by simp
  from assms(4) have "is_hls ?s2" by auto
  from cpu_loop_hls_sticky [OF l this] show ?thesis .
qed

lemma cpu_container_single:
  assumes "e \<noteq> ''hls''" and "e \<noteq> ''m3u8''" and "lower e = e"
  shows "fst (cpu_choose_container_and_codecs e) \<in> {''mp4'', ''webm'', ''mkv'', ''gif''}"
  using assms by (simp add: cpu_choose_container_and_codecs_def norm_format_def Let_def lower_def lower_char_def)


lemma upper_code:
  assumes "c \<in> set ''ABCDEFGHIJKLMNOPQRSTUVWXYZ''"
  shows "(of_char c :: nat) < 192"
proof -
  from assms have "c = CHR ''A'' \<or> c = CHR ''B'' \<or> c = CHR ''C'' \<or> c = CHR ''D'' \<or> c = CHR ''E''
    \<or> c = CHR ''F'' \<or> c = CHR ''G'' \<or> c = CHR ''H'' \<or> c = CHR ''I'' \<or> c = CHR ''J'' \<or> c = CHR ''K''
    \<or> c = CHR ''L'' \<or> c = CHR ''M'' \<or> c = CHR ''N'' \<or> c = CHR ''O'' \<or> c = CHR ''P'' \<or> c = CHR ''Q''
    \<or> c = CHR ''R'' \<or> c = CHR ''S'' \<or> c = CHR ''T'' \<or> c = CHR ''U'' \<or> c = CHR ''V'' \<or> c = CHR ''W''
    \<or> c = CHR ''X'' \<or> c = CHR ''Y'' \<or> c = CHR ''Z''"
    by simp
  then show ?thesis
    by (elim disjE) simp_all
qed

lemma lower_letter_fixed:
  assumes "l \<in> set ''abcdefghijklmnopqrstuvwxyz''"
  shows "lower_char l = l"
proof -
  from assms have "l = CHR ''a'' \<or> l = CHR ''b'' \<or> l = CHR ''c'' \<or> l = CHR ''d'' \<or> l = CHR ''e''
    \<or> l = CHR ''f'' \<or> l = CHR ''g'' \<or> l = CHR ''h'' \<or> l = CHR ''i'' \<or> l = CHR ''j'' \<or> l = CHR ''k''
    \<or> l = CHR ''l'' \<or> l = CHR ''m'' \<or> l = CHR ''n'' \<or> l = CHR ''o'' \<or> l = CHR ''p'' \<or> l = CHR ''q''
    \<or> l = CHR ''r'' \<or> l = CHR ''s'' \<or> l = CHR ''t'' \<or> l = CHR ''u'' \<or> l = CHR ''v'' \<or> l = CHR ''w''
    \<or> l = CHR ''x'' \<or> l = CHR ''y'' \<or> l = CHR ''z''"
    by simp
  then show ?thesis
    by (elim disjE) (simp_all add: lower_char_def)
qed

lemma lower_char_idem: "lower_char (lower_char c) = lower_char c"
proof -
  define T where "T = map_of (zip ''ABCDEFGHIJKLMNOPQRSTUVWXYZ'' ''abcdefghijklmnopqrstuvwxyz'')"
  have lc: "lower_char x =
      (case T x of Some l \<Rightarrow> l
       | None \<Rightarrow> if 192 \<le> (of_char x :: nat) \<and> (of_char x :: nat) \<le> 222 \<and> (of_char x :: nat) \<noteq> 215
                 then char_of (of_char x + 32 :: nat) else x)" for x
    unfolding T_def lower_char_def Let_def ..
  have ts: "l \<in> set ''abcdefghijklmnopqrstuvwxyz''" if "T x = Some l" for x l
  proof -
    from that have "(x, l) \<in> set (zip ''ABCDEFGHIJKLMNOPQRSTUVWXYZ'' ''abcdefghijklmnopqrstuvwxyz'')"
      unfolding T_def by (rule map_of_SomeD)
    then show ?thesis by (rule set_zip_rightD)
  qed
  have tn: "T x = None" if "x \<notin> set ''ABCDEFGHIJKLMNOPQRSTUVWXYZ''" for x
  proof -
    have len: "length ''ABCDEFGHIJKLMNOPQRSTUVWXYZ'' = length ''abcdefghijklmnopqrstuvwxyz''"
      by simp
    from that show ?thesis
      unfolding T_def by (rule iffD2 [OF map_of_zip_is_None [OF len]])
  qed
  show ?thesis
  proof (cases "T c")
    case (Some l)
    from lower_letter_fixed [OF ts [OF Some]] Some show ?thesis
      by (simp add: lc [of c])
  next
    case None
    show ?thesis
    proof (cases "192 \<le> (of_char c :: nat) \<and> (of_char c :: nat) \<le> 222 \<and> (of_char c :: nat) \<noteq> 215")
      case False
      with None have "lower_char c = c" by (auto simp: lc [of c])
      then show ?thesis by (simp only:)
    next
      case True
      let ?d = "char_of (of_char c + 32 :: nat)"
      from True have v: "(of_char ?d :: nat) = of_char c + 32"
        by simp
      have "?d \<notin> set ''ABCDEFGHIJKLMNOPQRSTUVWXYZ''"
      proof
        assume "?d \<in> set ''ABCDEFGHIJKLMNOPQRSTUVWXYZ''"
        from upper_code [OF this] v True show False by (simp only:) simp
      qed
      from tn [OF this] have n: "T ?d = None" .
      from True None have l: "lower_char c = ?d"
        by (simp add: lc [of c])
      from True have "\<not> (192 \<le> (of_char ?d :: nat) \<and> (of_char ?d :: nat) \<le> 222 \<and> (of_char ?d :: nat) \<noteq> 215)"
        unfolding v by simp
      with n have "lower_char ?d = ?d"
        by (auto simp add: lc [of ?d] simp del: of_char_of)
      with l show ?thesis by (simp only:)
    qed
  qed
qed

lemma lower_idem: "lower (lower s) = lower s"
  by (simp add: lower_def lower_char_idem)


lemma format_type_lower: "lower (format_type fl f) = format_type fl f"
  by (simp add: format_type_def lower_idem)

lemma cpu_loop_ext_lower:
  "cpu_ops_loop fl ops st = Inr st' \<Longrightarrow>
   (\<forall>e. forced_ext st = Some e \<longrightarrow> lower e = e) \<Longrightarrow>
   (\<forall>e. forced_ext st' = Some e \<longrightarrow> lower e = e)"
proof (induction ops arbitrary: st)
  case Nil
  then show ?case by simp
next
  case (Cons d ds)
  from Cons.prems(1) obtain s1 where s1: "cpu_step fl d st = Inr s1" and l: "cpu_ops_loop fl ds s1 = Inr st'"
    by (auto split: sum.splits)
  have p: "lower ''png'' = ''png''"
    by (simp add: lower_def lower_char_def)
  have "\<forall>e. forced_ext s1 = Some e \<longrightarrow> lower e = e"
  proof (cases "cpu_op_name d = Inr ''format''")
    case True
    from s1 cpu_step_format [OF True, of fl st] show ?thesis
      by (auto simp: format_type_lower)
  next
    case False
    from cpu_step_forced_ext [OF s1 False] Cons.prems(2) p show ?thesis
      by (simp split: if_splits)
  qed
  from Cons.IH [OF l this] show ?case .
qed

lemma cpu_single_container:
  assumes "cpu_apply_ops_and_watermark cfg fl fs c0 ops = Inr (cmd1, fe, cx, False)"
  shows "fst (cpu_choose_container_and_codecs (resolve_ext fe)) \<in> {''mp4'', ''webm'', ''mkv'', ''gif''}"
proof -
  from assms obtain st where l: "cpu_ops_loop fl ops (init_state c0) = Inr st"
    by (auto simp: cpu_apply_ops_and_watermark_def split: sum.splits)
  from cpu_apply_eq [OF l, of cfg fs] assms have fe: "fe = forced_ext st" and h: "\<not> is_hls st"
    by (simp_all split: if_splits)
  have i: "forced_ext (init_state c0) = None"
    by (simp add: init_state_def)
  from cpu_loop_hls_invariant [OF l] i h have n: "forced_ext st \<noteq> Some ''hls''" "forced_ext st \<noteq> Some ''m3u8''"
    by auto
  from cpu_loop_ext_lower [OF l] i have lw: "\<forall>e. forced_ext st = Some e \<longrightarrow> lower e = e"
    by simp
  show ?thesis
  proof (cases "ext_unset fe")
    case True
    then have "resolve_ext fe = ''mp4''" by (simp add: resolve_ext_def)
    then show ?thesis
      by (simp add: cpu_choose_container_and_codecs_def norm_format_def lower_def lower_char_def)
  next
    case False
    then obtain e where e: "fe = Some e" "e \<noteq> []"
      by (auto simp: ext_unset_def split: option.splits)
    with fe n lw have "e \<noteq> ''hls''" "e \<noteq> ''m3u8''" "lower e = e" by auto
    from cpu_container_single [OF this] e show ?thesis
      by (simp add: resolve_ext_simps)
  qed
qed

lemma claimed_media_type_agrees:
  "c \<in> {''mp4'', ''webm'', ''mkv'', ''gif''} \<Longrightarrow> media_type_of c = claimed_media_type c"
  by (auto simp: media_type_of_def claimed_media_type_def)

lemma run_Inr: "run eng c fs = Inr fs2 \<longleftrightarrow> eng c fs = Exited 0 fs2"
  by (auto simp: run_def split: outcome.splits)

text \<open>
  Claim C7, as amended. For every single-file job of the CPU variant (the compiler
  returns with the segmented flag unset and the engine exits with 0), the job returns the
  file \<open>out-<uuid>.<container>\<close> of the working directory with the content type that the
  mapping mp4 to video/mp4, webm to video/webm, mkv to video/x-matroska, mov to
  video/quicktime, gif to image/gif, any other to the generic binary type gives for the
  resolved container. The resolved container is one of mp4, webm, mkv and gif, so neither
  video/quicktime nor the generic type is ever returned; in particular a job whose
  resolved extension is mov gets the mp4 container and returns video/mp4.
\<close>

theorem single_file_content_type:
  assumes "cpu_apply_ops_and_watermark cfg fl fs (cpu_base_cmd cfg inp) ops = Inr (cmd1, fe, cx, False)"
    and "eng (cpu_final_args cmd1 cx (snd (cpu_choose_container_and_codecs (resolve_ext fe)))
               [path_join tmpdir (''out-'' @ u1 @ ''.''
                  @ fst (cpu_choose_container_and_codecs (resolve_ext fe)))]) fs = Exited 0 fs2"
  shows "cpu_process_video cfg fl eng u1 u2 inp ops tmpdir fs =
           Inr ((path_join tmpdir (''out-'' @ u1 @ ''.''
                   @ fst (cpu_choose_container_and_codecs (resolve_ext fe))),
                 claimed_media_type (fst (cpu_choose_container_and_codecs (resolve_ext fe)))), fs2)
       \<and> fst (cpu_choose_container_and_codecs (resolve_ext fe)) \<in> {''mp4'', ''webm'', ''mkv'', ''gif''}
       \<and> claimed_media_type (fst (cpu_choose_container_and_codecs (resolve_ext fe))) \<noteq> ''video/quicktime''
       \<and> (resolve_ext fe = ''mov'' \<longrightarrow>
            claimed_media_type (fst (cpu_choose_container_and_codecs (resolve_ext fe))) = ''video/mp4'')"
proof -
  let ?C = "fst (cpu_choose_container_and_codecs (resolve_ext fe))"
  note c = cpu_single_container [OF assms(1)]
  from assms(2) have r: "run eng (cpu_final_args cmd1 cx (snd (cpu_choose_container_and_codecs (resolve_ext fe)))
               [path_join tmpdir (''out-'' @ u1 @ ''.'' @ ?C)]) fs = Inr fs2"
    by (simp add: run_Inr)
  have 1: "cpu_process_video cfg fl eng u1 u2 inp ops tmpdir fs =
           Inr ((path_join tmpdir (''out-'' @ u1 @ ''.'' @ ?C), claimed_media_type ?C), fs2)"
    unfolding cpu_process_video_eq [OF assms(1)] using r claimed_media_type_agrees [OF c]
    by simp
  from c have 2: "claimed_media_type ?C \<noteq> ''video/quicktime''"
    by (auto simp: claimed_media_type_def)
  have 3: "claimed_media_type ?C = ''video/mp4''" if "resolve_ext fe = ''mov''"
    using that by (simp add: cpu_choose_container_and_codecs_def norm_format_def lower_def lower_char_def
        claimed_media_type_def)
  from 1 c 2 3 show ?thesis by simp
qed


lemma demo_parse_format:
  "parse_ops_query dec_ops [''format:type=mov''] = [[''op'' \<mapsto> VStr ''format'', ''type'' \<mapsto> VStr ''mov'']]"
  "parse_ops_query dec_ops [''format:type=webm''] = [[''op'' \<mapsto> VStr ''format'', ''type'' \<mapsto> VStr ''webm'']]"
  "parse_ops_query dec_ops [''format:type=hls''] = [[''op'' \<mapsto> VStr ''format'', ''type'' \<mapsto> VStr ''hls'']]"
  by (simp_all add: parse_eval)

lemma demo_format_jobs:
  "cpu_apply_ops_and_watermark demo_cfg dec_ops Map.empty (cpu_base_cmd demo_cfg ''in.mp4'')
     (parse_ops_query dec_ops [''format:type=mov'']) =
     Inr ([''ffmpeg'', ''-hide_banner'', ''-nostdin'', ''-y'', ''-loglevel'', ''error'', ''-i'', ''in.mp4'',
           ''-vf'', wm_draw demo_cfg], Some ''mov'', None, False)"
  "cpu_apply_ops_and_watermark demo_cfg dec_ops Map.empty (cpu_base_cmd demo_cfg ''in.mp4'')
     (parse_ops_query dec_ops [''format:type=webm'']) =
     Inr ([''ffmpeg'', ''-hide_banner'', ''-nostdin'', ''-y'', ''-loglevel'', ''error'', ''-i'', ''in.mp4'',
           ''-vf'', wm_draw demo_cfg], Some ''webm'', None, False)"
  by (simp_all add: demo_parse_format cpu_eval cpu_base_cmd_def)

lemma demo_selector:
  "cpu_choose_container_and_codecs ''mov'' =
     (''mp4'', [''-c:v'', ''libx264'', ''-c:a'', ''aac'', ''-movflags'', ''+faststart''])"
  "cpu_choose_container_and_codecs ''webm'' =
     (''webm'', [''-c:v'', ''libvpx-vp9'', ''-row-mt'', ''1'', ''-c:a'', ''libopus''])"
  "cpu_choose_container_and_codecs ''hls'' =
     (''m3u8'', [''-c:v'', ''libx264'', ''-c:a'', ''aac'', ''-f'', ''hls'',
                 ''-hls_time'', ''4'', ''-hls_list_size'', ''0''])"
  by (simp_all add: cpu_choose_container_and_codecs_def norm_format_def lower_def lower_char_def)

lemma demo_engine_exit:
  "last args \<noteq> ''/tmp/ffx/hls-01234567/index.m3u8'' \<Longrightarrow>
   demo_engine args fs = Exited 0 (fs(''/argv'' \<mapsto> Data (join '' '' args), last args \<mapsto> Data ''media''))"
  by (simp add: demo_engine_def Let_def)

theorem single_file_content_type_witness:
  "map_sum id fst (cpu_process_video demo_cfg dec_ops demo_engine ''0123456789abcdef'' ''fedcba9876543210''
      ''in.mp4'' (parse_ops_query dec_ops [''format:type=webm'']) ''/tmp/ffx'' Map.empty) =
     Inr (''/tmp/ffx/out-0123456789abcdef.webm'', ''video/webm'')"
proof -
  let ?final = "cpu_final_args [''ffmpeg'', ''-hide_banner'', ''-nostdin'', ''-y'', ''-loglevel'', ''error'',
      ''-i'', ''in.mp4'', ''-vf'', wm_draw demo_cfg] None
      (snd (cpu_choose_container_and_codecs (resolve_ext (Some ''webm''))))
      [path_join ''/tmp/ffx'' (''out-'' @ ''0123456789abcdef'' @ ''.''
         @ fst (cpu_choose_container_and_codecs (resolve_ext (Some ''webm''))))]"
  have l: "last ?final \<noteq> ''/tmp/ffx/hls-01234567/index.m3u8''"
    by (simp add: cpu_final_args_def resolve_ext_simps demo_selector path_join_def)
  show ?thesis
    using single_file_content_type [where eng = demo_engine and tmpdir = "''/tmp/ffx''"
          and ?u1.0 = "''0123456789abcdef''" and ?u2.0 = "''fedcba9876543210''" and fs = Map.empty,
        OF demo_format_jobs(2) demo_engine_exit [OF l, of Map.empty]]
    by (simp add: resolve_ext_simps demo_selector path_join_def claimed_media_type_def)
qed

text \<open>
  The claim as stated fails in its last part: the job with the one operation
  \<open>format:type=mov\<close> writes an mp4 file and returns video/mp4, not video/quicktime.
\<close>

theorem single_file_content_type_counterexample:
  "map_sum id fst (cpu_process_video demo_cfg dec_ops demo_engine ''0123456789abcdef'' ''fedcba9876543210''
      ''in.mp4'' (parse_ops_query dec_ops [''format:type=mov'']) ''/tmp/ffx'' Map.empty) =
     Inr (''/tmp/ffx/out-0123456789abcdef.mp4'', ''video/mp4'')"
  unfolding cpu_process_video_eq [OF demo_format_jobs(1)]
  by (simp add: resolve_ext_simps demo_selector path_join_def media_type_of_def run_def
      demo_engine_def Let_def cpu_final_args_def tuple_args_def)

section \<open>Segmented output\<close>

lemma gpu_step_format:
  "dget f ''op'' (VStr []) = VStr ''format'' \<Longrightarrow>
   gpu_step cfg fl f st =
     Inr (st\<lparr>forced_ext := Some (format_type fl f),
             is_hls := (if format_type fl f = ''hls'' \<or> format_type fl f = ''m3u8'' then True
                        else is_hls st)\<rparr>)"
  by (simp add: gpu_step_def Let_def)

lemma gpu_step_hls_mono:
  assumes "gpu_step cfg fl d st = Inr st'" and "is_hls st"
  shows "is_hls st'"
proof (cases "dget d ''op'' (VStr []) \<in> VStr ` set gpu_recognized")
  case False
  from gpu_step_unrecognized [OF this, of cfg fl st] assms show ?thesis by simp
next
  case True
  then have "dget d ''op'' (VStr []) = VStr ''format'' \<or> dget d ''op'' (VStr []) = VStr ''resize''
    \<or> dget d ''op'' (VStr []) = VStr ''scale'' \<or> dget d ''op'' (VStr []) = VStr ''fps''
    \<or> dget d ''op'' (VStr []) = VStr ''crop'' \<or> dget d ''op'' (VStr []) = VStr ''bitrate''
    \<or> dget d ''op'' (VStr []) = VStr ''crf'' \<or> dget d ''op'' (VStr []) = VStr ''preset''
    \<or> dget d ''op'' (VStr []) = VStr ''audio'' \<or> dget d ''op'' (VStr []) = VStr ''rotate''
    \<or> dget d ''op'' (VStr []) = VStr ''grayscale'' \<or> dget d ''op'' (VStr []) = VStr ''monochrome''
    \<or> dget d ''op'' (VStr []) = VStr ''thumbnail'' \<or> dget d ''op'' (VStr []) = VStr ''fast''"
    by (simp add: gpu_recognized_def)
  with assms show ?thesis
    by (elim disjE) (auto simp: gpu_step_def add_filter_def Let_def dest: rotate_op_fields split: if_splits)
qed

lemma gpu_loop_hls_sticky:
  "gpu_ops_loop cfg fl ops st = Inr st' \<Longrightarrow> is_hls st \<Longrightarrow> is_hls st'"
proof (induction ops arbitrary: st)
  case Nil
  then show ?case by simp
next
  case (Cons d ds)
  from Cons.prems(1) obtain s1 where s1: "gpu_step cfg fl d st = Inr s1"
    and l: "gpu_ops_loop cfg fl ds s1 = Inr st'"
    by (auto split: sum.splits)
  from Cons.IH [OF l gpu_step_hls_mono [OF s1 Cons.prems(2)]] show ?case .
qed

lemma gpu_loop_hls_requested:
  assumes "gpu_ops_loop cfg fl ops st = Inr st'" and "f \<in> set ops"
    and "dget f ''op'' (VStr []) = VStr ''format''"
    and "format_type fl f = ''hls'' \<or> format_type fl f = ''m3u8''"
  shows "is_hls st'"
proof -
  from assms(2) obtain xs ys where o: "ops = xs @ f # ys"
    by (auto simp: in_set_conv_decomp)
  from assms(1) o obtain s1 where r: "gpu_ops_loop cfg fl (f # ys) s1 = Inr st'"
    by (auto simp: gpu_ops_loop_append split: sum.splits)
  let ?s2 = "s1\<lparr>forced_ext := Some (format_type fl f),
             is_hls := (if format_type fl f = ''hls'' \<or> format_type fl f = ''m3u8'' then True
                        else is_hls s1)\<rparr>"
  from r gpu_step_format [OF assms(3), of cfg fl s1] have l: "gpu_ops_loop cfg fl ys ?s2 = Inr st'"
    by simp
  from assms(4) have "is_hls ?s2" by auto
  from gpu_loop_hls_sticky [OF l this] show ?thesis .
qed

lemma path_join_nonempty: "b \<noteq> [] \<Longrightarrow> path_join a b \<noteq> []"
  by (simp add: path_join_def)

lemma path_join_dir_prefix:
  "d \<noteq> [] \<Longrightarrow> n \<noteq> [] \<Longrightarrow> hd n \<noteq> CHR ''/'' \<Longrightarrow> path_join d n = dir_prefix d @ n"
  by (simp add: path_join_def dir_prefix_def)

lemma zip_dir_members:
  assumes "d \<noteq> []"
  shows "\<exists>m. zip_dir d z fs z = Some (Zip m)
           \<and> (\<forall>n. n \<noteq> [] \<and> hd n \<noteq> CHR ''/'' \<longrightarrow> m n = fs (path_join d n))"
proof -
  let ?m = "\<lambda>rel. if rel = [] then None else fs (dir_prefix d @ rel)"
  have "zip_dir d z fs z = Some (Zip ?m)"
    by (simp add: zip_dir_def)
  moreover have "\<forall>n. n \<noteq> [] \<and> hd n \<noteq> CHR ''/'' \<longrightarrow> ?m n = fs (path_join d n)"
    using assms by (simp add: path_join_dir_prefix)
  ultimately show ?thesis by blast
qed


lemma media_type_not_zip: "media_type_of c \<noteq> ''application/zip''"
  by (simp add: media_type_of_def)

lemma makedirs_fresh: "\<not> path_exists fs d \<Longrightarrow> makedirs d fs = Inr fs"
  by (simp add: makedirs_def)

lemma cpu_hls_job:
  assumes "f \<in> set ops" and "cpu_op_name f = Inr ''format''"
    and "format_type fl f = ''hls'' \<or> format_type fl f = ''m3u8''"
    and "cpu_apply_ops_and_watermark cfg fl fs (cpu_base_cmd cfg inp) ops = Inr (cmd1, fe, cx, hls)"
    and "\<not> path_exists fs (hls_dir_of tmpdir u1)"
    and "eng (cpu_final_args cmd1 cx (snd (cpu_choose_container_and_codecs ''hls''))
               (hls_target (hls_dir_of tmpdir u1))) fs = Exited 0 fs2"
  shows "hls \<and> cpu_process_video cfg fl eng u1 u2 inp ops tmpdir fs =
           Inr ((zip_path_of tmpdir u2, ''application/zip''),
                zip_dir (hls_dir_of tmpdir u1) (zip_path_of tmpdir u2) fs2)"
proof -
  from assms(4) obtain st where l: "cpu_ops_loop fl ops (init_state (cpu_base_cmd cfg inp)) = Inr st"
    by (auto simp: cpu_apply_ops_and_watermark_def split: sum.splits)
  from cpu_apply_eq [OF l, of cfg fs] assms(4) have "hls = is_hls st"
    by (simp split: if_splits)
  with cpu_loop_hls_requested [OF l assms(1,2,3)] have h: hls by simp
  from assms(6) have r: "run eng (cpu_final_args cmd1 cx (snd (cpu_choose_container_and_codecs ''hls''))
               (hls_target (hls_dir_of tmpdir u1))) fs = Inr fs2"
    by (simp add: run_Inr)
  from h makedirs_fresh [OF assms(5)] r show ?thesis
    unfolding cpu_process_video_eq [OF assms(4)]
    by (simp add: hls_dir_of_def zip_path_of_def hls_target_def)
qed

lemma gpu_hls_job:
  assumes "f \<in> set ops" and "dget f ''op'' (VStr []) = VStr ''format''"
    and "format_type fl f = ''hls'' \<or> format_type fl f = ''m3u8''"
    and "gpu_base_cmd cfg inp = Inr c0"
    and "gpu_apply_ops_and_watermark cfg fl fs c0 ops = Inr (cmd1, fe, cx, hls, vfc)"
    and "\<not> path_exists fs (hls_dir_of tmpdir u1)"
    and "eng (gpu_final_args cmd1 cx vfc (snd (gpu_choose_container_and_codecs cfg ''hls''))
               (hls_target (hls_dir_of tmpdir u1))) fs = Exited 0 fs2"
  shows "hls \<and> gpu_process_video cfg fl eng u1 u2 inp ops tmpdir fs =
           Inr ((zip_path_of tmpdir u2, ''application/zip''),
                zip_dir (hls_dir_of tmpdir u1) (zip_path_of tmpdir u2) fs2)"
proof -
  from assms(5) obtain st where l: "gpu_ops_loop cfg fl ops (gpu_init_state c0) = Inr st"
    by (auto simp: gpu_apply_ops_and_watermark_def split: sum.splits)
  from gpu_apply_eq [OF l, of fs] assms(5) have "hls = is_hls st"
    by (simp split: if_splits)
  with gpu_loop_hls_requested [OF l assms(1,2,3)] have h: hls by simp
  from assms(7) have r: "run eng (gpu_final_args cmd1 cx vfc (snd (gpu_choose_container_and_codecs cfg ''hls''))
               (hls_target (hls_dir_of tmpdir u1))) fs = Inr fs2"
    by (simp add: run_Inr)
  from h makedirs_fresh [OF assms(6)] r show ?thesis
    unfolding gpu_process_video_eq [OF assms(4) assms(5)]
    by (simp add: hls_dir_of_def zip_path_of_def hls_target_def)
qed

lemma cpu_job_dichotomy:
  assumes "cpu_apply_ops_and_watermark cfg fl fs (cpu_base_cmd cfg inp) ops = Inr (cmd1, fe, cx, hls)"
    and "cpu_process_video cfg fl eng u1 u2 inp ops tmpdir fs = Inr ((p, mt), fs')"
  shows "if hls then p = zip_path_of tmpdir u2 \<and> mt = ''application/zip''
         else p = out_path_of tmpdir u1 (fst (cpu_choose_container_and_codecs (resolve_ext fe)))
              \<and> mt \<noteq> ''application/zip''"
  using assms(2) unfolding cpu_process_video_eq [OF assms(1)]
  by (auto simp: zip_path_of_def out_path_of_def media_type_not_zip split: if_splits sum.splits)

lemma gpu_job_dichotomy:
  assumes "gpu_base_cmd cfg inp = Inr c0"
    and "gpu_apply_ops_and_watermark cfg fl fs c0 ops = Inr (cmd1, fe, cx, hls, vfc)"
    and "gpu_process_video cfg fl eng u1 u2 inp ops tmpdir fs = Inr ((p, mt), fs')"
  shows "if (case fe of None \<Rightarrow> False | Some x \<Rightarrow> x = ''hls'' \<or> x = ''m3u8'') \<or> hls
         then p = zip_path_of tmpdir u2 \<and> mt = ''application/zip''
         else p = out_path_of tmpdir u1 (fst (gpu_choose_container_and_codecs cfg (resolve_ext fe)))
              \<and> mt \<noteq> ''application/zip''"
  using assms(3) unfolding gpu_process_video_eq [OF assms(1) assms(2)]
  by (auto simp: zip_path_of_def out_path_of_def media_type_not_zip split: if_splits sum.splits)

lemma hls_dir_nonempty: "hls_dir_of tmpdir u1 \<noteq> []"
  by (simp add: hls_dir_of_def path_join_nonempty)

text \<open>
  Claim C6. Take a job whose operations include a \<open>format\<close> operation of type hls or
  m3u8, in either variant, and let the command builder and the compiler return, no file
  stand at the path of the subdirectory, and the engine exit with 0. (The command builder
  of the CPU variant always returns; that of the GPU variant returns with the software
  encoder and raises with \<open>h264_vaapi\<close>, where no job returns anything.) Then the segmented flag is set and the job
  returns one archive, \<open>hls_<uuid>.zip\<close> in the working directory, with the content type
  application/zip. The engine was told to write the playlist \<open>index.m3u8\<close> and the
  segments \<open>seg_%04d.ts\<close> into the dedicated subdirectory \<open>hls-<uuid>\<close>, and the
  archive's member of every relative name is the file of that name which the engine left
  in the subdirectory: the playlist and the segments, under their names. No single file
  is returned beside it: every job that returns gives one path and one content type, the
  archive with application/zip on the segmented path, and on the other path the file
  \<open>out-<uuid>.<container>\<close> with a content type that is never application/zip.
\<close>

theorem hls_job_archive:
  "(f \<in> set ops \<and> cpu_op_name f = Inr ''format''
      \<and> (format_type fl f = ''hls'' \<or> format_type fl f = ''m3u8'')
      \<and> cpu_apply_ops_and_watermark cfg fl fs (cpu_base_cmd cfg inp) ops = Inr (cmd1, fe, cx, hls)
      \<and> \<not> path_exists fs (hls_dir_of tmpdir u1)
      \<and> eng (cpu_final_args cmd1 cx (snd (cpu_choose_container_and_codecs ''hls''))
               (hls_target (hls_dir_of tmpdir u1))) fs = Exited 0 fs2 \<longrightarrow>
    hls \<and> cpu_process_video cfg fl eng u1 u2 inp ops tmpdir fs =
            Inr ((zip_path_of tmpdir u2, ''application/zip''),
                 zip_dir (hls_dir_of tmpdir u1) (zip_path_of tmpdir u2) fs2))
   \<and> (g \<in> set gops \<and> dget g ''op'' (VStr []) = VStr ''format''
      \<and> (format_type fl g = ''hls'' \<or> format_type fl g = ''m3u8'')
      \<and> gpu_base_cmd cfg inp = Inr c0
      \<and> gpu_apply_ops_and_watermark cfg fl fs c0 gops = Inr (gcmd, gfe, gcx, ghls, vfc)
      \<and> \<not> path_exists fs (hls_dir_of tmpdir u1)
      \<and> eng (gpu_final_args gcmd gcx vfc (snd (gpu_choose_container_and_codecs cfg ''hls''))
               (hls_target (hls_dir_of tmpdir u1))) fs = Exited 0 fs2 \<longrightarrow>
    ghls \<and> gpu_process_video cfg fl eng u1 u2 inp gops tmpdir fs =
            Inr ((zip_path_of tmpdir u2, ''application/zip''),
                 zip_dir (hls_dir_of tmpdir u1) (zip_path_of tmpdir u2) fs2))
   \<and> (\<exists>m. zip_dir (hls_dir_of tmpdir u1) (zip_path_of tmpdir u2) fs2 (zip_path_of tmpdir u2) = Some (Zip m)
          \<and> (\<forall>n. n \<noteq> [] \<and> hd n \<noteq> CHR ''/'' \<longrightarrow> m n = fs2 (path_join (hls_dir_of tmpdir u1) n)))
   \<and> (cpu_apply_ops_and_watermark cfg fl fs (cpu_base_cmd cfg inp) ops = Inr (cmd1, fe, cx, hls)
      \<and> cpu_process_video cfg fl eng u1 u2 inp ops tmpdir fs = Inr ((p, mt), fs') \<longrightarrow>
      (if hls then p = zip_path_of tmpdir u2 \<and> mt = ''application/zip''
       else p = out_path_of tmpdir u1 (fst (cpu_choose_container_and_codecs (resolve_ext fe)))
            \<and> mt \<noteq> ''application/zip''))
   \<and> (gpu_base_cmd cfg inp = Inr c0
      \<and> gpu_apply_ops_and_watermark cfg fl fs c0 gops = Inr (gcmd, gfe, gcx, ghls, vfc)
      \<and> gpu_process_video cfg fl eng u1 u2 inp gops tmpdir fs = Inr ((p, mt), fs') \<longrightarrow>
      (if (case gfe of None \<Rightarrow> False | Some x \<Rightarrow> x = ''hls'' \<or> x = ''m3u8'') \<or> ghls
       then p = zip_path_of tmpdir u2 \<and> mt = ''application/zip''
       else p = out_path_of tmpdir u1 (fst (gpu_choose_container_and_codecs cfg (resolve_ext gfe)))
            \<and> mt \<noteq> ''application/zip''))"
proof (intro conjI impI)
  assume a: "f \<in> set ops \<and> cpu_op_name f = Inr ''format''
      \<and> (format_type fl f = ''hls'' \<or> format_type fl f = ''m3u8'')
      \<and> cpu_apply_ops_and_watermark cfg fl fs (cpu_base_cmd cfg inp) ops = Inr (cmd1, fe, cx, hls)
      \<and> \<not> path_exists fs (hls_dir_of tmpdir u1)
      \<and> eng (cpu_final_args cmd1 cx (snd (cpu_choose_container_and_codecs ''hls''))
               (hls_target (hls_dir_of tmpdir u1))) fs = Exited 0 fs2"
  then have h: "hls \<and> cpu_process_video cfg fl eng u1 u2 inp ops tmpdir fs =
            Inr ((zip_path_of tmpdir u2, ''application/zip''),
                 zip_dir (hls_dir_of tmpdir u1) (zip_path_of tmpdir u2) fs2)"
    by (intro cpu_hls_job [of f ops fl cfg fs inp cmd1 fe cx hls tmpdir u1 eng fs2 u2]) simp_all
  from h show hls by (rule conjunct1)
  from h show "cpu_process_video cfg fl eng u1 u2 inp ops tmpdir fs =
            Inr ((zip_path_of tmpdir u2, ''application/zip''),
                 zip_dir (hls_dir_of tmpdir u1) (zip_path_of tmpdir u2) fs2)"
    by (rule conjunct2)
next
  assume a: "g \<in> set gops \<and> dget g ''op'' (VStr []) = VStr ''format''
      \<and> (format_type fl g = ''hls'' \<or> format_type fl g = ''m3u8'')
      \<and> gpu_base_cmd cfg inp = Inr c0
      \<and> gpu_apply_ops_and_watermark cfg fl fs c0 gops = Inr (gcmd, gfe, gcx, ghls, vfc)
      \<and> \<not> path_exists fs (hls_dir_of tmpdir u1)
      \<and> eng (gpu_final_args gcmd gcx vfc (snd (gpu_choose_container_and_codecs cfg ''hls''))
               (hls_target (hls_dir_of tmpdir u1))) fs = Exited 0 fs2"
  then have h: "ghls \<and> gpu_process_video cfg fl eng u1 u2 inp gops tmpdir fs =
            Inr ((zip_path_of tmpdir u2, ''application/zip''),
                 zip_dir (hls_dir_of tmpdir u1) (zip_path_of tmpdir u2) fs2)"
    by (intro gpu_hls_job [of g gops fl cfg inp c0 fs gcmd gfe gcx ghls vfc tmpdir u1 eng fs2 u2]) simp_all
  from h show ghls by (rule conjunct1)
  from h show "gpu_process_video cfg fl eng u1 u2 inp gops tmpdir fs =
            Inr ((zip_path_of tmpdir u2, ''application/zip''),
                 zip_dir (hls_dir_of tmpdir u1) (zip_path_of tmpdir u2) fs2)"
    by (rule conjunct2)
next
  show "\<exists>m. zip_dir (hls_dir_of tmpdir u1) (zip_path_of tmpdir u2) fs2 (zip_path_of tmpdir u2) = Some (Zip m)
          \<and> (\<forall>n. n \<noteq> [] \<and> hd n \<noteq> CHR ''/'' \<longrightarrow> m n = fs2 (path_join (hls_dir_of tmpdir u1) n))"
    by (rule zip_dir_members [OF hls_dir_nonempty])
next
  assume "cpu_apply_ops_and_watermark cfg fl fs (cpu_base_cmd cfg inp) ops = Inr (cmd1, fe, cx, hls)
      \<and> cpu_process_video cfg fl eng u1 u2 inp ops tmpdir fs = Inr ((p, mt), fs')"
  then show "if hls then p = zip_path_of tmpdir u2 \<and> mt = ''application/zip''
       else p = out_path_of tmpdir u1 (fst (cpu_choose_container_and_codecs (resolve_ext fe)))
            \<and> mt \<noteq> ''application/zip''"
    by (intro cpu_job_dichotomy [of cfg fl fs inp ops cmd1 fe cx hls eng u1 u2 tmpdir p mt fs']) simp_all
next
  assume "gpu_base_cmd cfg inp = Inr c0
      \<and> gpu_apply_ops_and_watermark cfg fl fs c0 gops = Inr (gcmd, gfe, gcx, ghls, vfc)
      \<and> gpu_process_video cfg fl eng u1 u2 inp gops tmpdir fs = Inr ((p, mt), fs')"
  then show "if (case gfe of None \<Rightarrow> False | Some x \<Rightarrow> x = ''hls'' \<or> x = ''m3u8'') \<or> ghls
       then p = zip_path_of tmpdir u2 \<and> mt = ''application/zip''
       else p = out_path_of tmpdir u1 (fst (gpu_choose_container_and_codecs cfg (resolve_ext gfe)))
            \<and> mt \<noteq> ''application/zip''"
    by (intro gpu_job_dichotomy [of cfg inp c0 fl fs gops gcmd gfe gcx ghls vfc eng u1 u2 tmpdir p mt fs']) simp_all
qed


lemma demo_gpu_parse_hls:
  "gpu_parse_ops_query dec_ops [''format:type=hls''] = [[''op'' \<mapsto> VStr ''format'', ''type'' \<mapsto> VStr ''hls'']]"
  by (simp add: parse_eval)

lemma demo_hls_jobs:
  "cpu_apply_ops_and_watermark demo_cfg dec_ops Map.empty (cpu_base_cmd demo_cfg ''in.mp4'')
     (parse_ops_query dec_ops [''format:type=hls'']) =
     Inr ([''ffmpeg'', ''-hide_banner'', ''-nostdin'', ''-y'', ''-loglevel'', ''error'', ''-i'', ''in.mp4'',
           ''-vf'', wm_draw demo_cfg], Some ''hls'', None, True)"
  "gpu_apply_ops_and_watermark demo_cfg dec_ops Map.empty
     [''ffmpeg'', ''-hide_banner'', ''-nostdin'', ''-y'', ''-loglevel'', ''error'', ''-i'', ''in.mp4'']
     (gpu_parse_ops_query dec_ops [''format:type=hls'']) =
     Inr ([''ffmpeg'', ''-hide_banner'', ''-nostdin'', ''-y'', ''-loglevel'', ''error'', ''-i'', ''in.mp4''],
          Some ''hls'', None, True, [''-vf'', wm_draw demo_cfg])"
  "gpu_base_cmd demo_cfg ''in.mp4'' =
     Inr [''ffmpeg'', ''-hide_banner'', ''-nostdin'', ''-y'', ''-loglevel'', ''error'', ''-i'', ''in.mp4'']"
  by (simp_all add: demo_parse_format demo_gpu_parse_hls cpu_eval cpu_base_cmd_def gpu_base_cmd_def
      gpu_apply_ops_and_watermark_def gpu_step_def gpu_init_state_def)

lemma demo_paths:
  "hls_dir_of ''/tmp/ffx'' ''0123456789abcdef'' = ''/tmp/ffx/hls-01234567''"
  "zip_path_of ''/tmp/ffx'' ''fedcba9876543210'' = ''/tmp/ffx/hls_fedcba98.zip''"
  "hls_target ''/tmp/ffx/hls-01234567'' =
     [''-hls_segment_filename'', ''/tmp/ffx/hls-01234567/seg_%04d.ts'', ''/tmp/ffx/hls-01234567/index.m3u8'']"
  "dir_prefix ''/tmp/ffx/hls-01234567'' = ''/tmp/ffx/hls-01234567/''"
  by (simp_all add: hls_dir_of_def zip_path_of_def hls_target_def path_join_def dir_prefix_def)

lemma demo_engine_hls:
  "last args = ''/tmp/ffx/hls-01234567/index.m3u8'' \<Longrightarrow>
   demo_engine args fs =
     Exited 0 (fs(''/argv'' \<mapsto> Data (join '' '' args),
                  ''/tmp/ffx/hls-01234567/index.m3u8'' \<mapsto> Data ''media'',
                  ''/tmp/ffx/hls-01234567/seg_0000.ts'' \<mapsto> Data ''segment''))"
  by (simp add: demo_engine_def Let_def)

theorem hls_job_archive_witness:
  "map_sum id fst (cpu_process_video demo_cfg dec_ops demo_engine ''0123456789abcdef'' ''fedcba9876543210''
      ''in.mp4'' (parse_ops_query dec_ops [''format:type=hls'']) ''/tmp/ffx'' Map.empty) =
     Inr (''/tmp/ffx/hls_fedcba98.zip'', ''application/zip'')
   \<and> member_of (cpu_process_video demo_cfg dec_ops demo_engine ''0123456789abcdef'' ''fedcba9876543210''
      ''in.mp4'' (parse_ops_query dec_ops [''format:type=hls'']) ''/tmp/ffx'' Map.empty)
      ''/tmp/ffx/hls_fedcba98.zip'' ''index.m3u8'' = Some (Data ''media'')
   \<and> member_of (cpu_process_video demo_cfg dec_ops demo_engine ''0123456789abcdef'' ''fedcba9876543210''
      ''in.mp4'' (parse_ops_query dec_ops [''format:type=hls'']) ''/tmp/ffx'' Map.empty)
      ''/tmp/ffx/hls_fedcba98.zip'' ''seg_0000.ts'' = Some (Data ''segment'')
   \<and> map_sum id fst (gpu_process_video demo_cfg dec_ops demo_engine ''0123456789abcdef'' ''fedcba9876543210''
      ''in.mp4'' (gpu_parse_ops_query dec_ops [''format:type=hls'']) ''/tmp/ffx'' Map.empty) =
     Inr (''/tmp/ffx/hls_fedcba98.zip'', ''application/zip'')
   \<and> member_of (gpu_process_video demo_cfg dec_ops demo_engine ''0123456789abcdef'' ''fedcba9876543210''
      ''in.mp4'' (gpu_parse_ops_query dec_ops [''format:type=hls'']) ''/tmp/ffx'' Map.empty)
      ''/tmp/ffx/hls_fedcba98.zip'' ''seg_0000.ts'' = Some (Data ''segment'')"
proof -
  let ?f = "[''op'' \<mapsto> VStr ''format'', ''type'' \<mapsto> VStr ''hls''] :: int descriptor"
  let ?D = "hls_dir_of ''/tmp/ffx'' ''0123456789abcdef''"
  let ?Z = "zip_path_of ''/tmp/ffx'' ''fedcba9876543210''"
  let ?base = "[''ffmpeg'', ''-hide_banner'', ''-nostdin'', ''-y'', ''-loglevel'', ''error'', ''-i'', ''in.mp4'']"
  let ?ca = "cpu_final_args (?base @ [''-vf'', wm_draw demo_cfg]) None
      (snd (cpu_choose_container_and_codecs ''hls'')) (hls_target ?D)"
  let ?ga = "gpu_final_args ?base None [''-vf'', wm_draw demo_cfg]
      (snd (gpu_choose_container_and_codecs demo_cfg ''hls'')) (hls_target ?D)"
  let ?cfs = "Map.empty(''/argv'' \<mapsto> Data (join '' '' ?ca),
                  ''/tmp/ffx/hls-01234567/index.m3u8'' \<mapsto> Data ''media'',
                  ''/tmp/ffx/hls-01234567/seg_0000.ts'' \<mapsto> Data ''segment'')"
  let ?gfs = "Map.empty(''/argv'' \<mapsto> Data (join '' '' ?ga),
                  ''/tmp/ffx/hls-01234567/index.m3u8'' \<mapsto> Data ''media'',
                  ''/tmp/ffx/hls-01234567/seg_0000.ts'' \<mapsto> Data ''segment'')"
  have n: "cpu_op_name ?f = Inr ''format''" "dget ?f ''op'' (VStr []) = VStr ''format''"
    "format_type dec_ops ?f = ''hls''"
    by (simp_all add: cpu_op_name_def dget_def lower_def lower_char_def format_type_def)
  have x: "\<not> path_exists Map.empty ?D"
    by (simp add: path_exists_def)
  have lc: "last ?ca = ''/tmp/ffx/hls-01234567/index.m3u8''"
    by (simp add: cpu_final_args_def demo_paths)
  have lg: "last ?ga = ''/tmp/ffx/hls-01234567/index.m3u8''"
    by (simp add: gpu_final_args_def demo_paths)
  have ec: "demo_engine ?ca Map.empty = Exited 0 ?cfs"
    by (rule demo_engine_hls [OF lc])
  have eg: "demo_engine ?ga Map.empty = Exited 0 ?gfs"
    by (rule demo_engine_hls [OF lg])
  note tc = hls_job_archive [where f = ?f and ops = "parse_ops_query dec_ops [''format:type=hls'']"
      and fl = dec_ops and cfg = demo_cfg and fs = Map.empty and inp = "''in.mp4''"
      and ?cmd1.0 = "?base @ [''-vf'', wm_draw demo_cfg]" and fe = "Some ''hls''" and cx = None
      and hls = True and tmpdir = "''/tmp/ffx''" and ?u1.0 = "''0123456789abcdef''"
      and ?u2.0 = "''fedcba9876543210''" and eng = demo_engine and ?fs2.0 = ?cfs
      and p = ?Z and mt = "''application/zip''" and fs' = "zip_dir ?D ?Z ?cfs"
      and g = ?f and gops = "[]" and gcmd = "[]" and gfe = None and gcx = None and ghls = False
      and vfc = "[]" and ?c0.0 = ?base]
  note tg = hls_job_archive [where g = ?f and gops = "gpu_parse_ops_query dec_ops [''format:type=hls'']"
      and fl = dec_ops and cfg = demo_cfg and fs = Map.empty and inp = "''in.mp4''"
      and ?c0.0 = ?base
      and gcmd = ?base and gfe = "Some ''hls''" and gcx = None and vfc = "[''-vf'', wm_draw demo_cfg]"
      and ghls = True and tmpdir = "''/tmp/ffx''" and ?u1.0 = "''0123456789abcdef''"
      and ?u2.0 = "''fedcba9876543210''" and eng = demo_engine and ?fs2.0 = ?gfs
      and p = ?Z and mt = "''application/zip''" and fs' = "zip_dir ?D ?Z ?gfs"
      and f = ?f and ops = "[]" and ?cmd1.0 = "[]" and fe = None and cx = None and hls = False]
  have pc: "cpu_process_video demo_cfg dec_ops demo_engine ''0123456789abcdef'' ''fedcba9876543210''
      ''in.mp4'' (parse_ops_query dec_ops [''format:type=hls'']) ''/tmp/ffx'' Map.empty =
      Inr ((?Z, ''application/zip''), zip_dir ?D ?Z ?cfs)"
    using tc demo_hls_jobs(1) n x ec by (simp add: demo_parse_format)
  have pg: "gpu_process_video demo_cfg dec_ops demo_engine ''0123456789abcdef'' ''fedcba9876543210''
      ''in.mp4'' (gpu_parse_ops_query dec_ops [''format:type=hls'']) ''/tmp/ffx'' Map.empty =
      Inr ((?Z, ''application/zip''), zip_dir ?D ?Z ?gfs)"
    using tg demo_hls_jobs(2) demo_hls_jobs(3) n x eg by (simp add: demo_gpu_parse_hls)
  show ?thesis
    unfolding pc pg
    by (simp add: member_of_def zip_dir_def demo_paths)
qed

section \<open>The coercion of argument values\<close>

lemma split_first_absent: "c \<notin> set s \<Longrightarrow> split_first c s = (s, None)"
  by (induction s) auto

lemma split_first_present: "c \<notin> set a \<Longrightarrow> split_first c (a @ c # b) = (a, Some b)"
  by (induction a) auto

lemma split_on_absent: "c \<notin> set s \<Longrightarrow> split_on c s = [s]"
  by (induction s) auto

lemma split_on_nonempty: "split_on c s \<noteq> []"
  by (induction s) (auto split: list.splits)

lemma split_on_append:
  "c \<notin> set a \<Longrightarrow> split_on c (a @ c # b) = a # split_on c b"
  by (induction a) (auto split: list.splits)

lemma split_on_join:
  "ps \<noteq> [] \<Longrightarrow> \<forall>p\<in>set ps. c \<notin> set p \<Longrightarrow> split_on c (join [c] ps) = ps"
proof (induction ps)
  case Nil
  then show ?case by simp
next
  case (Cons p ps)
  show ?case
  proof (cases ps)
    case Nil
    with Cons.prems show ?thesis by (simp add: split_on_absent)
  next
    case (Cons q qs)
    with Cons.prems Cons.IH have "split_on c (join [c] ps) = ps" by simp
    with Cons Cons.prems show ?thesis by (simp add: split_on_append)
  qed
qed

lemma ascii_digit_isdigit: "ascii_digit c \<Longrightarrow> isdigit_char c"
  by (simp add: ascii_digit_def isdigit_char_def Let_def)

lemma ascii_digit_not_space: "ascii_digit c \<Longrightarrow> \<not> int_space c"
  by (auto simp: ascii_digit_def int_space_def Let_def)

lemma ascii_digit_not_sign:
  "ascii_digit c \<Longrightarrow> c \<noteq> CHR ''-'' \<and> c \<noteq> CHR ''+'' \<and> c \<noteq> CHR ''_''"
  by (auto simp: ascii_digit_def)

lemma isdigit_char_no_dot: "isdigit_char c \<Longrightarrow> c \<noteq> CHR ''.''"
  by (auto simp: isdigit_char_def)

lemma digits_val_ascii:
  "list_all ascii_digit s \<Longrightarrow> digits_val acc s = Some (foldl (\<lambda>a c. 10 * a + digit_val c) acc s)"
proof (induction acc s rule: digits_val.induct)
  case (1 acc)
  then show ?case by simp
next
  case (2 acc c)
  then show ?case by simp
next
  case (3 acc c d cs)
  from "3.prems" have "ascii_digit c" "ascii_digit d" "list_all ascii_digit (d # cs)"
    by simp_all
  with "3.IH"(2) ascii_digit_not_sign [of d] show ?case by simp
qed

lemma digits_val_only_ascii:
  "digits_val acc s = Some n \<Longrightarrow> CHR ''_'' \<notin> set s \<Longrightarrow> list_all ascii_digit s"
proof (induction acc s arbitrary: n rule: digits_val.induct)
  case (1 acc)
  then show ?case by simp
next
  case (2 acc c)
  then show ?case by (simp split: if_splits)
next
  case (3 acc c d cs)
  from "3.prems"(2) have d: "d \<noteq> CHR ''_''" by auto
  from "3.prems"(1) d have c: "ascii_digit c"
    and r: "digits_val (10 * acc + digit_val c) (d # cs) = Some n"
    by (simp_all split: if_splits)
  from "3.IH"(2) [OF c d r] "3.prems"(2) c show ?case by simp
qed


lemma isdigit_char_plain:
  "isdigit_char c \<Longrightarrow> \<not> int_space c \<and> c \<noteq> CHR ''-'' \<and> c \<noteq> CHR ''+'' \<and> c \<noteq> CHR ''_''"
  by (auto simp: isdigit_char_def int_space_def Let_def)

lemma dropWhile_none: "\<forall>c\<in>set s. \<not> P c \<Longrightarrow> dropWhile P s = s"
  by (cases s) simp_all


lemma int_of_str_isdigit:
  assumes "isdigit v"
  shows "int_of_str v =
           (if list_all ascii_digit v \<and> length v \<le> max_str_digits
            then Some (int (decimal_value v)) else None)"
proof -
  from assms obtain c cs where v: "v = c # cs" and d: "list_all isdigit_char v"
    by (cases v) (auto simp: isdigit_def)
  from d have ns: "\<forall>x\<in>set v. \<not> int_space x" and nu: "CHR ''_'' \<notin> set v"
    using isdigit_char_plain by (auto simp: list_all_iff)
  from ns have "\<forall>x\<in>set (rev v). \<not> int_space x" by simp
  then have "dropWhile int_space (rev v) = rev v" by (rule dropWhile_none)
  with dropWhile_none [OF ns] have s: "rev (dropWhile int_space (rev (dropWhile int_space v))) = v"
    by simp
  from d v isdigit_char_plain [of c] have "c \<noteq> CHR ''-''" "c \<noteq> CHR ''+''"
    by simp_all
  with s v have i: "int_of_str v = map_option int (unsigned_val v)"
    by (simp add: int_of_str_def)
  show ?thesis
  proof (cases "list_all ascii_digit v")
    case True
    then have "filter ascii_digit v = v"
      by (simp add: list_all_iff)
    with i v digits_val_ascii [OF True, of 0] True show ?thesis
      by (simp add: unsigned_val_def decimal_value_def)
  next
    case False
    have "digits_val 0 v = None"
    proof (cases "digits_val 0 v")
      case None
      then show ?thesis .
    next
      case (Some n)
      from digits_val_only_ascii [OF Some nu] False show ?thesis by simp
    qed
    with i False show ?thesis by (simp add: unsigned_val_def)
  qed
qed

lemma coerce_claimed: "\<not> long_digits v \<Longrightarrow> coerce fl v = claimed_coerce fl v"
proof (cases "lower v = ''true'' \<or> lower v = ''false''")
  case True
  then show ?thesis by (auto simp: coerce_def claimed_coerce_def)
next
  case False
  assume s: "\<not> long_digits v"
  show ?thesis
  proof (cases "isdigit v")
    case True
    then have nd: "CHR ''.'' \<notin> set v"
      using isdigit_char_no_dot by (auto simp: isdigit_def list_all_iff)
    from True have ne: "v \<noteq> []" by (simp add: isdigit_def)
    from s have "list_all ascii_digit v \<longrightarrow> length v \<le> max_str_digits"
      by (auto simp: long_digits_def)
    with False True nd ne int_of_str_isdigit [OF True] show ?thesis
      by (auto simp: coerce_def claimed_coerce_def)
  next
    case nodigit: False
    then have "\<not> (v \<noteq> [] \<and> list_all ascii_digit v)"
      using ascii_digit_isdigit by (auto simp: isdigit_def list_all_iff)
    with False nodigit show ?thesis
      by (simp add: coerce_def claimed_coerce_def split: option.splits)
  qed
qed

lemma lower_char_digit:
  assumes "ascii_digit c"
  shows "lower_char c = c"
proof -
  define T where "T = map_of (zip ''ABCDEFGHIJKLMNOPQRSTUVWXYZ'' ''abcdefghijklmnopqrstuvwxyz'')"
  have lc: "lower_char c =
      (case T c of Some l \<Rightarrow> l
       | None \<Rightarrow> if 192 \<le> (of_char c :: nat) \<and> (of_char c :: nat) \<le> 222 \<and> (of_char c :: nat) \<noteq> 215
                 then char_of (of_char c + 32 :: nat) else c)"
    unfolding T_def lower_char_def Let_def ..
  have "c \<notin> set ''ABCDEFGHIJKLMNOPQRSTUVWXYZ''"
  proof
    assume "c \<in> set ''ABCDEFGHIJKLMNOPQRSTUVWXYZ''"
    then have "c = CHR ''A'' \<or> c = CHR ''B'' \<or> c = CHR ''C'' \<or> c = CHR ''D'' \<or> c = CHR ''E''
      \<or> c = CHR ''F'' \<or> c = CHR ''G'' \<or> c = CHR ''H'' \<or> c = CHR ''I'' \<or> c = CHR ''J'' \<or> c = CHR ''K''
      \<or> c = CHR ''L'' \<or> c = CHR ''M'' \<or> c = CHR ''N'' \<or> c = CHR ''O'' \<or> c = CHR ''P'' \<or> c = CHR ''Q''
      \<or> c = CHR ''R'' \<or> c = CHR ''S'' \<or> c = CHR ''T'' \<or> c = CHR ''U'' \<or> c = CHR ''V'' \<or> c = CHR ''W''
      \<or> c = CHR ''X'' \<or> c = CHR ''Y'' \<or> c = CHR ''Z''"
      by simp
    then show False
      using assms by (elim disjE) (simp_all add: ascii_digit_def)
  qed
  moreover have len: "length ''ABCDEFGHIJKLMNOPQRSTUVWXYZ'' = length ''abcdefghijklmnopqrstuvwxyz''"
    by simp
  ultimately have "T c = None"
    unfolding T_def by (intro iffD2 [OF map_of_zip_is_None [OF len]])
  with assms show ?thesis
    by (simp add: lc ascii_digit_def Let_def)
qed

lemma coerce_long:
  assumes "long_digits v"
  shows "coerce fl v = VStr v"
proof -
  from assms have a: "list_all ascii_digit v" and l: "max_str_digits < length v"
    by (simp_all add: long_digits_def)
  from l have ne: "v \<noteq> []" by auto
  from a have lw: "lower v = v"
    by (simp add: lower_def list_all_iff lower_char_digit map_idI)
  from a ne have "\<not> ascii_digit (CHR ''t'') \<and> \<not> ascii_digit (CHR ''f'')" "hd v \<in> set v"
    by (simp_all add: ascii_digit_def)
  with a have nb: "v \<noteq> ''true''" "v \<noteq> ''false''"
    by (auto simp: list_all_iff)
  from a ne have d: "isdigit v"
    using ascii_digit_isdigit by (auto simp: isdigit_def list_all_iff)
  from int_of_str_isdigit [OF d] l have "int_of_str v = None"
    by simp
  with lw nb d show ?thesis
    by (simp add: coerce_def)
qed

lemma parse_part_claimed:
  "arg_ok kv \<Longrightarrow> short_value kv \<Longrightarrow> parse_part fl (render_arg kv) item = claimed_record fl kv item"
proof (cases kv)
  case (Pair k vo)
  assume a: "arg_ok kv" and sv: "short_value kv"
  show ?thesis
  proof (cases vo)
    case None
    with a Pair show ?thesis
      by (simp add: parse_part_def split_first_absent)
  next
    case (Some v)
    with a Pair have "CHR ''='' \<notin> set k" by simp
    from split_first_present [OF this, of v] Some Pair sv show ?thesis
      by (simp add: parse_part_def coerce_claimed)
  qed
qed

lemma fold_parse_claimed:
  "list_all arg_ok kvs \<Longrightarrow> list_all short_value kvs \<Longrightarrow>
   fold (parse_part fl) (map render_arg kvs) item = fold (claimed_record fl) kvs item"
  by (induction kvs arbitrary: item) (simp_all add: parse_part_claimed)

lemma render_arg_no_comma: "arg_ok kv \<Longrightarrow> CHR '','' \<notin> set (render_arg kv)"
  by (cases kv; cases "snd kv") auto

lemma render_arg_nonempty: "arg_ok kv \<Longrightarrow> render_arg kv \<noteq> []"
  by (cases kv; cases "snd kv") auto

lemma join_nonempty: "ps \<noteq> [] \<Longrightarrow> hd ps \<noteq> [] \<Longrightarrow> join sep ps \<noteq> []"
  by (induction sep ps rule: join.induct) simp_all

lemma parse_op_claimed:
  assumes "CHR '':'' \<notin> set name" and "list_all arg_ok kvs" and "list_all short_value kvs"
  shows "parse_op norm fl (name @ '':'' @ join '','' (map render_arg kvs)) =
           fold (claimed_record fl) kvs [''op'' \<mapsto> VStr (norm name)]"
proof -
  let ?args = "join '','' (map render_arg kvs)"
  from split_first_present [OF assms(1), of ?args]
  have sf: "split_first (CHR '':'') (name @ '':'' @ ?args) = (name, Some ?args)"
    by simp
  show ?thesis
  proof (cases kvs)
    case Nil
    with sf show ?thesis by (simp add: parse_op_def)
  next
    case (Cons kv rest)
    with assms(2) have ne: "map render_arg kvs \<noteq> []"
      and nc: "\<forall>p\<in>set (map render_arg kvs). CHR '','' \<notin> set p"
      and hn: "hd (map render_arg kvs) \<noteq> []"
      using render_arg_no_comma render_arg_nonempty by (auto simp: list_all_iff)
    from split_on_join [OF ne nc] have so: "split_on (CHR '','') ?args = map render_arg kvs"
      by simp
    from join_nonempty [OF ne hn] have an: "?args \<noteq> []" .
    from sf so an fold_parse_claimed [OF assms(2) assms(3)] show ?thesis
      by (simp add: parse_op_def Let_def)
  qed
qed

text \<open>
  Claim C4, as amended. Every argument value goes through the coercion in the order of
  the specification, but for one case: a value that lowers to \<open>true\<close> or \<open>false\<close> becomes
  the boolean; otherwise a non-empty value of decimal digits only becomes the integer it
  denotes when it has at most 4300 digits, and stays the string it was when it has more
  (\<open>int\<close> refuses it and the \<open>except: pass\<close> of the parser keeps the string); otherwise a
  value with a decimal point becomes the float the conversion gives and stays the string it
  was where the conversion fails; otherwise the value stays a string. An operation string
  \<open>name:key1=val1,...\<close>, put together from a name without a colon and arguments that the
  separators do not cut and whose values are no such long runs of digits, parses to exactly
  one descriptor: the name under \<open>op\<close> (stripped; the GPU variant also lowers it), each
  \<open>key=value\<close> as the stripped key with the coerced stripped value, and each key without
  \<open>=\<close> as the boolean true. Later arguments overwrite earlier ones with the same key, as
  the assignments of the source do. (A value that \<open>isdigit\<close> accepts but \<open>int\<close> refuses
  for its characters, the superscript digits, has no decimal point and stays a string in
  the code and in the claim alike.)
\<close>

theorem parser_coercion:
  "(\<not> long_digits v \<longrightarrow> coerce fl v = claimed_coerce fl v)
   \<and> (long_digits v \<longrightarrow> coerce fl v = VStr v)
   \<and> (CHR '':'' \<notin> set name \<and> list_all arg_ok kvs \<and> list_all short_value kvs \<longrightarrow>
        parse_ops_query fl [name @ '':'' @ join '','' (map render_arg kvs)] =
          [fold (claimed_record fl) kvs [''op'' \<mapsto> VStr (strip name)]]
        \<and> gpu_parse_ops_query fl [name @ '':'' @ join '','' (map render_arg kvs)] =
          [fold (claimed_record fl) kvs [''op'' \<mapsto> VStr (lower (strip name))]])"
  using parse_op_claimed [of name kvs strip fl] parse_op_claimed [of name kvs "\<lambda>n. lower (strip n)" fl]
  by (simp add: coerce_claimed coerce_long parse_ops_query_def gpu_parse_ops_query_def)

lemma demo_float_literals:
  "float_of_str dec_ops ''-1.5'' = Some (- 15000000000)"
  "float_of_str dec_ops ''1.2.3'' = None"
  by (simp_all add: dec_ops_def dec_of_str_def dec_scale_def decimal_value_def digit_val_def ascii_digit_def)

lemma demo_long_digits:
  "long_digits (replicate 4301 (CHR ''9''))"
  "\<not> long_digits []" "\<not> long_digits ''1280''" "\<not> long_digits ''-1.5''" "\<not> long_digits ''TRUE''"
  "\<not> long_digits ''fast''" "\<not> long_digits ''1.2.3''"
  by (simp_all add: long_digits_def max_str_digits_def ascii_digit_def list_all_iff)

theorem parser_coercion_witness:
  "parse_ops_query dec_ops [''resize:width=1280,height=-1.5,keep,flag=TRUE,mode=fast,v=1.2.3''] =
     [[''op'' \<mapsto> VStr ''resize'', ''width'' \<mapsto> VInt 1280, ''height'' \<mapsto> VFloat (- 15000000000),
       ''keep'' \<mapsto> VBool True, ''flag'' \<mapsto> VBool True, ''mode'' \<mapsto> VStr ''fast'',
       ''v'' \<mapsto> VStr ''1.2.3'']]
   \<and> gpu_parse_ops_query dec_ops [''Resize:width=1280,height=-1.5,keep,flag=TRUE,mode=fast,v=1.2.3''] =
     [[''op'' \<mapsto> VStr ''resize'', ''width'' \<mapsto> VInt 1280, ''height'' \<mapsto> VFloat (- 15000000000),
       ''keep'' \<mapsto> VBool True, ''flag'' \<mapsto> VBool True, ''mode'' \<mapsto> VStr ''fast'',
       ''v'' \<mapsto> VStr ''1.2.3'']]
   \<and> coerce dec_ops ''1280'' = VInt 1280
   \<and> coerce dec_ops (replicate 4301 (CHR ''9'')) = VStr (replicate 4301 (CHR ''9''))"
proof -
  let ?kvs = "[(''width'', Some ''1280''), (''height'', Some ''-1.5''), (''keep'', None),
               (''flag'', Some ''TRUE''), (''mode'', Some ''fast''), (''v'', Some ''1.2.3'')]"
  have st: "strip ''1280'' = ''1280''" "strip ''-1.5'' = ''-1.5''" "strip ''TRUE'' = ''TRUE''"
    "strip ''fast'' = ''fast''" "strip ''1.2.3'' = ''1.2.3''"
    "strip ''resize'' = ''resize''" "lower (strip ''Resize'') = ''resize''"
    by (simp_all add: strip_def isspace_def lower_def lower_char_def)
  have ok: "CHR '':'' \<notin> set ''resize'' \<and> list_all arg_ok ?kvs \<and> list_all short_value ?kvs"
    "CHR '':'' \<notin> set ''Resize'' \<and> list_all arg_ok ?kvs \<and> list_all short_value ?kvs"
    by (simp_all add: st demo_long_digits)
  show ?thesis
    using parser_coercion [of "''1280''" dec_ops "''resize''" ?kvs]
      parser_coercion [of "replicate 4301 (CHR ''9'')" dec_ops "''Resize''" ?kvs]
      ok demo_long_digits
    by (simp add: claimed_coerce_def strip_def isspace_def lower_def lower_char_def
        ascii_digit_def decimal_value_def digit_val_def demo_float_literals)
qed

lemma strip_nines: "strip (replicate n (CHR ''9'')) = replicate n (CHR ''9'')"
  by (simp add: strip_def isspace_def)

text \<open>
  The claim as stated fails for a value of more than 4300 digits: the parser keeps it as
  a string. The operation string here is \<open>crf:value=\<close> followed by 4301 nines.
\<close>

theorem parser_coercion_counterexample:
  "parse_ops_query dec_ops [''crf:value='' @ replicate 4301 (CHR ''9'')] =
     [[''op'' \<mapsto> VStr ''crf'', ''value'' \<mapsto> VStr (replicate 4301 (CHR ''9''))]]
   \<and> list_all ascii_digit (replicate 4301 (CHR ''9''))
   \<and> int_of_str (replicate 4301 (CHR ''9'')) = None
   \<and> int_of_str (replicate 4300 (CHR ''9'')) = Some (int (decimal_value (replicate 4300 (CHR ''9''))))"
proof -
  let ?R = "replicate 4301 (CHR ''9'')"
  have c: "coerce dec_ops ?R = VStr ?R"
    by (rule coerce_long [OF demo_long_digits(1)])
  have nc: "CHR '','' \<notin> set ?R"
    by simp
  have d: "isdigit (replicate n (CHR ''9'')) = (n \<noteq> 0)" for n
    by (cases n) (simp_all add: isdigit_def isdigit_char_def list_all_iff)
  have a: "list_all ascii_digit (replicate n (CHR ''9''))" for n
    by (simp add: list_all_iff ascii_digit_def)
  have p: "parse_ops_query dec_ops [''crf:value='' @ ?R] =
     [[''op'' \<mapsto> VStr ''crf'', ''value'' \<mapsto> VStr ?R]]"
    by (simp add: parse_ops_query_def parse_op_def parse_part_def split_on_absent [OF nc]
        strip_nines c strip_def isspace_def)
  have i1: "int_of_str ?R = None"
    using int_of_str_isdigit [of ?R] d [of 4301] by (simp add: max_str_digits_def)
  have i2: "int_of_str (replicate 4300 (CHR ''9'')) =
      Some (int (decimal_value (replicate 4300 (CHR ''9''))))"
    using int_of_str_isdigit [of "replicate 4300 (CHR ''9'')"] d [of 4300] a [of 4300]
    by (simp add: max_str_digits_def)
  from p a [of 4301] i1 i2 show ?thesis by simp
qed

end
